theory Spec2Isabelle
  imports Complex_Main "HOL-Library.Sublist"
begin

section \<open>Python values used by app.py\<close>

subsection \<open>Floats\<close>

text \<open>
  Prices, totals and revenue in \<^verbatim>\<open>app.py\<close> are Python floats, that is IEEE 754 binary64
  numbers. A finite float is modelled by the rational number it denotes; every arithmetic
  operation computes the exact rational result and rounds it to the nearest binary64 value,
  ties to the even significand (\<open>fl\<close>). Subnormal numbers are covered (the exponent is
  clamped at -1022). Infinities, NaN and the sign of zero are outside the model: \<open>fl\<close> is
  the IEEE rounding for results of magnitude below \<open>2 ^ 1024\<close>.
\<close>

text \<open>\<^verbatim>\<open>int.bit_length\<close> of a non-negative int.\<close>

function bit_length :: "int \<Rightarrow> nat" where
  "bit_length n = (if n \<le> 0 then 0 else Suc (bit_length (n div 2)))"
  by pat_completeness auto
termination
  by (relation "measure nat") auto

declare bit_length.simps [simp del]

definition pow2 :: "int \<Rightarrow> rat" where
  "pow2 e = (if 0 \<le> e then 2 ^ nat e else 1 / 2 ^ nat (- e))"

text \<open>\<open>ilog2 x\<close> is the integer \<open>e\<close> with \<open>2 ^ e \<le> |x| < 2 ^ (e + 1)\<close>, for \<open>x \<noteq> 0\<close>.\<close>

definition ilog2 :: "rat \<Rightarrow> int" where
  "ilog2 x = (if 1 \<le> \<bar>x\<bar> then int (bit_length \<lfloor>\<bar>x\<bar>\<rfloor>) - 1
              else - int (bit_length (\<lceil>1 / \<bar>x\<bar>\<rceil> - 1)))"

definition round_half_even :: "rat \<Rightarrow> int" where
  "round_half_even x =
     (let f = \<lfloor>x\<rfloor>; r = x - of_int f
      in if r < 1 / 2 then f else if 1 / 2 < r then f + 1 else if even f then f else f + 1)"

definition fl :: "rat \<Rightarrow> rat" where
  "fl x = (if x = 0 then 0
           else let u = pow2 (max (ilog2 x) (- 1022) - 52)
                in of_int (round_half_even (x / u)) * u)"

datatype py_error = ZeroDivisionError

text \<open>\<^verbatim>\<open>float(i)\<close>, which Python applies to the int operand of a mixed operation.\<close>

definition py_float :: "int \<Rightarrow> rat" where
  "py_float i = fl (of_int i)"

definition py_add :: "rat \<Rightarrow> rat \<Rightarrow> rat" where
  "py_add x y = fl (x + y)"

definition py_mul :: "rat \<Rightarrow> rat \<Rightarrow> rat" where
  "py_mul x y = fl (x * y)"

definition py_truediv :: "rat \<Rightarrow> rat \<Rightarrow> py_error + rat" where
  "py_truediv x y = (if y = 0 then Inl ZeroDivisionError else Inr (fl (x / y)))"

text \<open>\<^verbatim>\<open>sum(xs)\<close>: starts from the int 0 and adds from the left.\<close>

definition py_sum :: "rat list \<Rightarrow> rat" where
  "py_sum xs = foldl py_add (py_float 0) xs"

subsection \<open>Strings\<close>

definition digit_char :: "int \<Rightarrow> char" where
  "digit_char d = ''0123456789'' ! nat (d mod 10)"

text \<open>The decimal digits of a non-negative int.\<close>

function str_nat :: "int \<Rightarrow> string" where
  "str_nat n = (if n < 10 then [digit_char n] else str_nat (n div 10) @ [digit_char (n mod 10)])"
  by pat_completeness auto
termination
  by (relation "measure nat") auto

declare str_nat.simps [simp del]

text \<open>\<^verbatim>\<open>str(i)\<close> of an int, as an f-string renders it.\<close>

definition str_int :: "int \<Rightarrow> string" where
  "str_int i = (if i < 0 then CHR ''-'' # str_nat (- i) else str_nat i)"

text \<open>
  \<^verbatim>\<open>f"{x:.2f}"\<close>: the exact value of the float rounded to two decimals (ties to even) and
  written with exactly two digits after the point.
\<close>

definition format_2f :: "rat \<Rightarrow> string" where
  "format_2f x =
     (let n = round_half_even (\<bar>x\<bar> * 100)
      in (if x < 0 then ''-'' else '''') @ str_nat (n div 100) @ ''.''
         @ [digit_char (n mod 100 div 10), digit_char (n mod 10)])"

text \<open>\<^verbatim>\<open>sep.join(xs)\<close>.\<close>

fun join :: "string \<Rightarrow> string list \<Rightarrow> string" where
  "join sep [] = []"
| "join sep [x] = x"
| "join sep (x # y # ys) = x @ sep @ join sep (y # ys)"

subsection \<open>Dictionaries and lists\<close>

text \<open>
  A Python dict keeps its keys in insertion order, and \<^verbatim>\<open>place_order\<close> and
  \<^verbatim>\<open>sorted\<close> observe that order, so a dict is an association list: assigning to a key
  that is present replaces its value in place, assigning to a new key appends it.
\<close>

type_synonym ('k, 'v) dict = "('k \<times> 'v) list"

text \<open>\<^verbatim>\<open>d.get(k, default)\<close>\<close>

definition dict_get :: "('k, 'v) dict \<Rightarrow> 'k \<Rightarrow> 'v \<Rightarrow> 'v" where
  "dict_get d k dflt = (case map_of d k of None \<Rightarrow> dflt | Some v \<Rightarrow> v)"

text \<open>\<^verbatim>\<open>d[k] = v\<close>\<close>

fun dict_set :: "('k, 'v) dict \<Rightarrow> 'k \<Rightarrow> 'v \<Rightarrow> ('k, 'v) dict" where
  "dict_set [] k v = [(k, v)]"
| "dict_set ((k', v') # d) k v = (if k' = k then (k, v) # d else (k', v') # dict_set d k v)"

text \<open>\<^verbatim>\<open>d.pop(k, None)\<close>, for its effect on the dict.\<close>

definition dict_pop :: "('k, 'v) dict \<Rightarrow> 'k \<Rightarrow> ('k, 'v) dict" where
  "dict_pop d k = filter (\<lambda>e. fst e \<noteq> k) d"

text \<open>\<^verbatim>\<open>xs[:k]\<close>: a negative \<open>k\<close> counts from the end.\<close>

definition slice_to :: "'a list \<Rightarrow> int \<Rightarrow> 'a list" where
  "slice_to xs k = (if 0 \<le> k then take (nat k) xs else take (length xs - nat (- k)) xs)"

text \<open>\<^verbatim>\<open>xs[-k:]\<close> for a positive literal \<open>k\<close>: the last \<open>k\<close> elements.\<close>

definition slice_last :: "nat \<Rightarrow> 'a list \<Rightarrow> 'a list" where
  "slice_last k xs = drop (length xs - k) xs"

text \<open>\<^verbatim>\<open>max(xs, default=d)\<close>\<close>

fun py_max :: "int list \<Rightarrow> int \<Rightarrow> int" where
  "py_max [] d = d"
| "py_max (x # xs) d = foldl max x xs"

text \<open>
  \<^verbatim>\<open>sorted(xs, key=..., reverse=True)\<close> is stable: elements with equal keys keep their
  order. \<open>sort_key\<close> is a stable insertion sort into ascending order, so the descending
  stable sort is \<open>sort_key\<close> on the negated key.
\<close>

definition sorted_reverse :: "('a \<Rightarrow> int) \<Rightarrow> 'a list \<Rightarrow> 'a list" where
  "sorted_reverse key xs = sort_key (\<lambda>x. - key x) xs"

section \<open>Data classes and session state\<close>

text \<open>
  \<^verbatim>\<open>class MenuItem\<close>. The constructor's \<^verbatim>\<open>tags or []\<close> is applied where an item is built.
\<close>

record MenuItem =
  food_id :: int
  name :: string
  price :: rat
  rating :: rat
  image_data :: "string option"
  category :: string
  tags :: "string list"

text \<open>
  \<^verbatim>\<open>MenuItem\<close> objects are shared: the catalog list and the line items of the orders hold
  references to the same objects. The objects live in a store (a list, a reference being an
  index into it); the catalog and the orders hold references. No statement of
  \<^verbatim>\<open>app.py\<close> assigns to an attribute of a \<^verbatim>\<open>MenuItem\<close> after its construction, so the
  store only grows.
\<close>

type_synonym ref = nat

text \<open>\<^verbatim>\<open>class OrderHistory\<close>; \<open>items\<close> is the list of (item, qty) tuples.\<close>

record OrderHistory =
  order_id :: int
  customer_name :: string
  items :: "(ref \<times> int) list"
  total_amount :: rat
  date :: string
  is_teacher :: bool

text \<open>
  The part of \<^verbatim>\<open>st.session_state\<close> that the menu, the cart and the orders use, together
  with the object store and the entries of the \<^verbatim>\<open>st.cache_data\<close> cache of
  \<^verbatim>\<open>get_popular_items\<close>. Both list arguments of the cached function start with an
  underscore, which excludes them from the cache key: an entry is keyed by \<open>limit\<close>
  alone. A cached value is a pickled copy of the returned items. The expiry of an entry
  after 60 seconds is wall-clock time and not part of the model.
\<close>

record session_state =
  objects :: "MenuItem list"
  menu_items :: "ref list"
  orders :: "OrderHistory list"
  order_index :: int
  cart :: "(int, int) dict"
  popular_cache :: "(int, MenuItem list) dict"

text \<open>What a handler shows to the user: \<^verbatim>\<open>st.success\<close>, \<^verbatim>\<open>st.error\<close>, \<^verbatim>\<open>st.balloons\<close>.
  The texts are the source's without their leading emoji.\<close>

datatype message = Success string | Error string | Balloons

subsection \<open>The default menu and the initial state\<close>

definition menu_data :: "(int \<times> string \<times> rat \<times> rat \<times> string \<times> string list) list" where
  "menu_data =
    [(1, ''Burger'', fl (7023 / 100), fl (45 / 10), ''Main Course'', [''popular'', ''non-veg'']),
     (2, ''Coffee'', fl (7020 / 100), fl (40 / 10), ''Beverage'', [''popular'', ''hot'']),
     (3, ''Pizza'', fl (23726 / 100), fl (47 / 10), ''Main Course'', [''popular'', ''vegetarian'']),
     (4, ''Pasta'', fl (15000 / 100), fl (43 / 10), ''Main Course'', [''vegetarian'']),
     (5, ''Sandwich'', fl (8050 / 100), fl (42 / 10), ''Main Course'', [''vegetarian'']),
     (6, ''Fries'', fl (6000 / 100), fl (40 / 10), ''Side Dish'', [''popular'', ''vegetarian'']),
     (7, ''Salad'', fl (9000 / 100), fl (44 / 10), ''Side Dish'', [''vegetarian'', ''healthy'']),
     (8, ''Ice Cream'', fl (5000 / 100), fl (46 / 10), ''Dessert'', [''popular'', ''sweet''])]"

text \<open>
  \<^verbatim>\<open>load_default_menu\<close>. \<open>images fid\<close> is the content of the file
  \<^verbatim>\<open>images/<fid>.jpg\<close> when it exists and can be read, and \<open>None\<close> otherwise.
\<close>

definition load_default_menu :: "(int \<Rightarrow> string option) \<Rightarrow> MenuItem list" where
  "load_default_menu images =
     map (\<lambda>(fid, nm, pr, rt, cat, tgs).
            \<lparr>food_id = fid, name = nm, price = pr, rating = rt, image_data = images fid,
             category = cat, tags = tgs\<rparr>) menu_data"

text \<open>\<^verbatim>\<open>initialize_session_state\<close> on a fresh session.\<close>

definition initialize_session_state :: "(int \<Rightarrow> string option) \<Rightarrow> session_state" where
  "initialize_session_state images =
     (let objs = load_default_menu images
      in \<lparr>objects = objs, menu_items = [0 ..< length objs], orders = [], order_index = 1,
          cart = [], popular_cache = []\<rparr>)"

section \<open>RecommendationEngine.get_popular_items\<close>

text \<open>The body of the inner loop: \<^verbatim>\<open>item_counts[item.food_id] = item_counts.get(item.food_id, 0) + qty\<close>\<close>

definition count_item :: "MenuItem list \<Rightarrow> (int, int) dict \<Rightarrow> ref \<times> int \<Rightarrow> (int, int) dict" where
  "count_item objs item_counts line =
     (let fid = food_id (objs ! fst line)
      in dict_set item_counts fid (dict_get item_counts fid 0 + snd line))"

text \<open>The two nested loops over the orders and their line items.\<close>

definition count_items :: "MenuItem list \<Rightarrow> OrderHistory list \<Rightarrow> (int, int) dict" where
  "count_items objs ords = foldl (\<lambda>item_counts ord. foldl (count_item objs) item_counts (items ord)) [] ords"

definition get_popular_items :: "MenuItem list \<Rightarrow> ref list \<Rightarrow> OrderHistory list \<Rightarrow> int \<Rightarrow> ref list" where
  "get_popular_items objs menu ords limit =
     (let item_counts = count_items objs ords
      in if item_counts = [] then slice_to menu limit
         else let popular_ids = slice_to (sorted_reverse snd item_counts) limit
              in filter (\<lambda>r. food_id (objs ! r) \<in> set (map fst popular_ids)) menu)"

text \<open>
  What the spec calls the cumulative quantity of an item: the sum of the quantities of all
  lines of all orders whose item bears the identifier. \<open>popular_ids\<close> names the
  identifiers that \<^verbatim>\<open>get_popular_items\<close> selects.
\<close>

definition order_lines_all :: "OrderHistory list \<Rightarrow> (ref \<times> int) list" where
  "order_lines_all ords = concat (map items ords)"

definition cumulative_qty :: "MenuItem list \<Rightarrow> OrderHistory list \<Rightarrow> int \<Rightarrow> int" where
  "cumulative_qty objs ords fid =
     sum_list (map snd (filter (\<lambda>line. food_id (objs ! fst line) = fid) (order_lines_all ords)))"

text \<open>The elements of a list in the order of their first occurrence.\<close>

definition first_occurrences :: "'a list \<Rightarrow> 'a list" where
  "first_occurrences xs = rev (remdups (rev xs))"

definition popular_ids :: "MenuItem list \<Rightarrow> OrderHistory list \<Rightarrow> int \<Rightarrow> int list" where
  "popular_ids objs ords limit = map fst (slice_to (sorted_reverse snd (count_items objs ords)) limit)"

text \<open>The call through \<^verbatim>\<open>st.cache_data\<close>.\<close>

definition cached_get_popular_items :: "int \<Rightarrow> session_state \<Rightarrow> MenuItem list \<times> session_state" where
  "cached_get_popular_items limit s =
     (case map_of (popular_cache s) limit of
        Some v \<Rightarrow> (v, s)
      | None \<Rightarrow>
          (let v = map (\<lambda>r. objects s ! r)
                     (get_popular_items (objects s) (menu_items s) (orders s) limit)
           in (v, s\<lparr>popular_cache := popular_cache s @ [(limit, v)]\<rparr>)))"

section \<open>The cart\<close>

text \<open>
  The two buttons that \<^verbatim>\<open>display_menu_item\<close> draws for the item with identifier \<open>fid\<close>.
  The minus button is disabled while the quantity is 0.
\<close>

definition display_menu_item_plus :: "int \<Rightarrow> session_state \<Rightarrow> session_state" where
  "display_menu_item_plus fid s =
     (let current_qty = dict_get (cart s) fid 0
      in s\<lparr>cart := dict_set (cart s) fid (current_qty + 1)\<rparr>)"

definition display_menu_item_minus :: "int \<Rightarrow> session_state \<Rightarrow> session_state" where
  "display_menu_item_minus fid s =
     (let current_qty = dict_get (cart s) fid 0
      in if current_qty = 0 then s
         else if current_qty > 1 then s\<lparr>cart := dict_set (cart s) fid (current_qty - 1)\<rparr>
         else s\<lparr>cart := dict_pop (cart s) fid\<rparr>)"

text \<open>\<^verbatim>\<open>[i.food_id for i in menu_items]\<close>\<close>

definition food_ids :: "MenuItem list \<Rightarrow> ref list \<Rightarrow> int list" where
  "food_ids objs menu = map (\<lambda>r. food_id (objs ! r)) menu"

text \<open>\<^verbatim>\<open>next((m for m in menu_items if m.food_id == food_id), None)\<close>\<close>

definition lookup_item :: "MenuItem list \<Rightarrow> ref list \<Rightarrow> int \<Rightarrow> ref option" where
  "lookup_item objs menu fid = find (\<lambda>r. food_id (objs ! r) = fid) menu"

text \<open>
  The loop of \<^verbatim>\<open>place_order\<close> over \<^verbatim>\<open>cart.items()\<close>, with its two accumulators. The
  appended tuple holds the catalog's object itself. \<^verbatim>\<open>display_cart_summary\<close> runs the
  same loop for the total it shows.
\<close>

fun cart_loop :: "MenuItem list \<Rightarrow> ref list \<Rightarrow> (int, int) dict \<Rightarrow> (ref \<times> int) list \<Rightarrow> rat
    \<Rightarrow> (ref \<times> int) list \<times> rat" where
  "cart_loop objs menu [] items_ordered tot = (items_ordered, tot)"
| "cart_loop objs menu ((fid, qty) # rest) items_ordered tot =
     (case lookup_item objs menu fid of
        None \<Rightarrow> cart_loop objs menu rest items_ordered tot
      | Some r \<Rightarrow>
          cart_loop objs menu rest (items_ordered @ [(r, qty)])
            (py_add tot (py_mul (price (objs ! r)) (py_float qty))))"

text \<open>\<^verbatim>\<open>display_cart_summary\<close>: the text of the total line, when a row resolves.\<close>

definition display_cart_summary :: "session_state \<Rightarrow> string option" where
  "display_cart_summary s =
     (case cart_loop (objects s) (menu_items s) (cart s) [] (py_float 0) of
        (cart_items, tot) \<Rightarrow> if cart_items \<noteq> [] then Some (format_2f tot) else None)"

section \<open>place_order\<close>

text \<open>\<open>now\<close> is \<^verbatim>\<open>datetime.now().strftime("%d-%m-%Y %H:%M")\<close>.\<close>

definition place_order :: "string \<Rightarrow> bool \<Rightarrow> string \<Rightarrow> session_state \<Rightarrow> message list \<times> session_state" where
  "place_order customer teacher now s =
     (case cart_loop (objects s) (menu_items s) (cart s) [] (py_float 0) of
        (items_ordered, tot) \<Rightarrow>
          if items_ordered \<noteq> [] then
            (let ord = \<lparr>order_id = order_index s, customer_name = customer,
                        items = items_ordered, total_amount = tot, date = now,
                        is_teacher = teacher\<rparr>
             in ([Success (''Order #'' @ str_int (order_id ord) @ '' placed successfully!''), Balloons],
                 s\<lparr>orders := orders s @ [ord], order_index := order_index s + 1, cart := [],
                   popular_cache := []\<rparr>))
          else ([], s))"

text \<open>
  The buttons of \<^verbatim>\<open>show_user_panel\<close> below the menu; they are drawn only while the cart
  is not empty.
\<close>

definition clear_cart_button :: "session_state \<Rightarrow> session_state" where
  "clear_cart_button s = (if cart s \<noteq> [] then s\<lparr>cart := []\<rparr> else s)"

definition place_order_button :: "string \<Rightarrow> bool \<Rightarrow> string \<Rightarrow> session_state \<Rightarrow> message list \<times> session_state" where
  "place_order_button customer teacher now s =
     (if cart s \<noteq> [] then
        (if customer \<noteq> [] then place_order customer teacher now s
         else ([Error ''Please enter your name''], s))
      else ([], s))"

section \<open>Admin panel\<close>

record metrics =
  total_orders :: nat
  revenue :: rat
  menu_count :: nat
  avg_order :: rat

text \<open>The four numbers of \<^verbatim>\<open>show_admin_panel\<close>, before they are formatted.\<close>

definition show_admin_panel :: "session_state \<Rightarrow> py_error + metrics" where
  "show_admin_panel s =
     (let rv = py_sum (map total_amount (orders s))
      in case (if orders s \<noteq> [] then py_truediv rv (py_float (int (length (orders s))))
               else Inr (py_float 0)) of
           Inl e \<Rightarrow> Inl e
         | Inr avg \<Rightarrow>
             Inr \<lparr>total_orders = length (orders s), revenue = rv,
                  menu_count = length (menu_items s), avg_order = avg\<rparr>)"

text \<open>
  \<^verbatim>\<open>show_menu_management\<close>, the "Add Dish" button. \<open>img\<close> is the content of the
  uploaded file, if any.
\<close>

definition add_dish :: "string \<Rightarrow> rat \<Rightarrow> string \<Rightarrow> rat \<Rightarrow> string option \<Rightarrow> session_state
    \<Rightarrow> message list \<times> session_state" where
  "add_dish nm pr cat rt img s =
     (if nm \<noteq> [] \<and> pr > 0 then
        (let new_id = py_max (food_ids (objects s) (menu_items s)) 0 + 1;
             new_item = \<lparr>food_id = new_id, name = nm, price = pr, rating = rt,
                         image_data = img, category = cat, tags = []\<rparr>
         in ([Success (''Added '' @ nm)],
             s\<lparr>objects := objects s @ [new_item],
               menu_items := menu_items s @ [length (objects s)]\<rparr>))
      else ([Error ''Fill required fields''], s))"

text \<open>
  The "Delete" button beside a menu item: \<^verbatim>\<open>menu_items.remove(item)\<close>. \<^verbatim>\<open>MenuItem\<close>
  defines no \<^verbatim>\<open>__eq__\<close>, so \<^verbatim>\<open>remove\<close> compares by identity. The button exists for the
  items of the list only.
\<close>

definition delete_dish :: "ref \<Rightarrow> session_state \<Rightarrow> session_state" where
  "delete_dish r s = s\<lparr>menu_items := remove1 r (menu_items s)\<rparr>"

text \<open>
  \<^verbatim>\<open>show_order_management\<close>, the "Delete" button of an order: the list shows the last
  ten orders. Orders are compared by identity as well; the orders of a ledger that the
  application builds have pairwise different identifiers, so the first equal value is the
  object itself.
\<close>

definition delete_order :: "OrderHistory \<Rightarrow> session_state \<Rightarrow> session_state" where
  "delete_order ord s =
     (if ord \<in> set (slice_last 10 (orders s)) then s\<lparr>orders := remove1 ord (orders s)\<rparr> else s)"

section \<open>Reading an order\<close>

text \<open>
  The name and the quantity of each line of an order, read through the references as
  \<^verbatim>\<open>show_order_management\<close> and the exports read them (\<^verbatim>\<open>item.name\<close>, \<^verbatim>\<open>qty\<close>).
\<close>

definition order_lines :: "MenuItem list \<Rightarrow> OrderHistory \<Rightarrow> (string \<times> int) list" where
  "order_lines objs ord = map (\<lambda>(r, q). (name (objs ! r), q)) (items ord)"

text \<open>\<^verbatim>\<open>"; ".join([f"{i.name}x{q}" for i, q in o.items])\<close> of \<^verbatim>\<open>export_csv\<close>\<close>

definition items_str :: "MenuItem list \<Rightarrow> OrderHistory \<Rightarrow> string" where
  "items_str objs ord = join ''; '' (map (\<lambda>(r, q). name (objs ! r) @ ''x'' @ str_int q) (items ord))"

section \<open>export_csv\<close>

text \<open>
  \<^verbatim>\<open>repr\<close> of a float: the shortest decimal that reads back as the same float and, among
  the decimals of that length, the one nearest to the float. For each number of digits from
  1 to 17 the two decimals of that length next to the float are tried; 17 digits are known
  to be enough for a binary64 number, and the last case of \<open>repr_digits\<close> (never reached
  for a float) only makes the function total. The digits are written in positional notation
  when the decimal point lies within them or at most 4 places before and 16 places after
  their start, in exponent notation otherwise.
\<close>

definition pow10 :: "int \<Rightarrow> rat" where
  "pow10 e = (if 0 \<le> e then 10 ^ nat e else 1 / 10 ^ nat (- e))"

text \<open>\<open>ilog10 x\<close> is the integer \<open>k\<close> with \<open>10 ^ k \<le> x < 10 ^ (k + 1)\<close>, for a float \<open>x > 0\<close>.\<close>

function ilog10_below :: "rat \<Rightarrow> nat \<Rightarrow> int" where
  "ilog10_below x j = (if 1 \<le> x * 10 \<or> 400 \<le> j then - int (Suc j) else ilog10_below (x * 10) (Suc j))"
  by pat_completeness auto
termination
  by (relation "measure (\<lambda>(x, j). 400 - j)") auto

declare ilog10_below.simps [simp del]

definition ilog10 :: "rat \<Rightarrow> int" where
  "ilog10 x = (if 1 \<le> x then int (length (str_nat \<lfloor>x\<rfloor>)) - 1 else ilog10_below x 0)"

text \<open>
  The decimal \<open>m * 10 ^ e\<close> of \<open>n\<close> digits that reads back as \<open>x\<close>, if there is one:
  the one below \<open>x\<close> or the one above it, the nearer when both do.
\<close>

definition digits_candidate :: "rat \<Rightarrow> int \<Rightarrow> nat \<Rightarrow> (int \<times> int) option" where
  "digits_candidate x k n =
     (let e = k - int n + 1;
          lo = \<lfloor>x / pow10 e\<rfloor>;
          hi = lo + 1;
          lo_ok = (fl (of_int lo * pow10 e) = x);
          hi_ok = (fl (of_int hi * pow10 e) = x)
      in if lo_ok \<and> hi_ok then
           (if x - of_int lo * pow10 e < of_int hi * pow10 e - x then Some (lo, e)
            else if of_int hi * pow10 e - x < x - of_int lo * pow10 e then Some (hi, e)
            else if even lo then Some (lo, e) else Some (hi, e))
         else if lo_ok then Some (lo, e)
         else if hi_ok then Some (hi, e)
         else None)"

fun first_some :: "('a \<Rightarrow> 'b option) \<Rightarrow> 'a list \<Rightarrow> 'b option" where
  "first_some f [] = None"
| "first_some f (x # xs) = (case f x of Some y \<Rightarrow> Some y | None \<Rightarrow> first_some f xs)"

definition shortest_decimal :: "rat \<Rightarrow> (int \<times> int) option" where
  "shortest_decimal x =
     first_some (digits_candidate x (ilog10 x)) [1, 2, 3, 4, 5, 6, 7, 8, 9, 10, 11, 12, 13, 14, 15, 16, 17]"

function strip_zeros :: "int \<Rightarrow> int \<Rightarrow> int \<times> int" where
  "strip_zeros m e = (if m \<noteq> 0 \<and> m mod 10 = 0 then strip_zeros (m div 10) (e + 1) else (m, e))"
  by pat_completeness auto
termination
  by (relation "measure (\<lambda>(m, e). nat \<bar>m\<bar>)") auto

declare strip_zeros.simps [simp del]

definition repr_digits :: "rat \<Rightarrow> int \<times> int" where
  "repr_digits x =
     (case shortest_decimal x of
        Some (m, e) \<Rightarrow> strip_zeros m e
      | None \<Rightarrow> strip_zeros (round_half_even (x / pow10 (ilog10 x - 16))) (ilog10 x - 16))"

definition format_repr :: "int \<Rightarrow> int \<Rightarrow> string" where
  "format_repr m e =
     (let ds = str_nat m; decpt = int (length ds) + e
      in if - 4 < decpt \<and> decpt \<le> 16 then
           (if decpt \<le> 0 then ''0.'' @ replicate (nat (- decpt)) CHR ''0'' @ ds
            else if int (length ds) \<le> decpt then
              ds @ replicate (nat (decpt - int (length ds))) CHR ''0'' @ ''.0''
            else take (nat decpt) ds @ ''.'' @ drop (nat decpt) ds)
         else take 1 ds @ (if 1 < length ds then ''.'' @ drop 1 ds else [])
              @ ''e'' @ (if decpt - 1 < 0 then ''-'' else ''+'')
              @ (if \<bar>decpt - 1\<bar> < 10 then ''0'' else []) @ str_nat \<bar>decpt - 1\<bar>)"

definition float_repr :: "rat \<Rightarrow> string" where
  "float_repr x =
     (if x = 0 then ''0.0''
      else (if x < 0 then ''-'' else []) @ (case repr_digits \<bar>x\<bar> of (m, e) \<Rightarrow> format_repr m e))"

text \<open>
  \<^verbatim>\<open>pd.DataFrame(data).to_csv(index=False)\<close> for rows of int, float and str cells: a header
  line with the column names (none for an empty frame) and one line per row, the cells joined
  by commas, every line ended by a newline. An int is written by \<^verbatim>\<open>str\<close>, a float by its
  \<^verbatim>\<open>repr\<close>, and a field that holds a comma, a double quote or a newline is written in
  double quotes with its double quotes doubled (\<^verbatim>\<open>csv.QUOTE_MINIMAL\<close> with the line
  terminator a single newline character; a carriage return alone does not make a field quoted).
\<close>

datatype cell = IntCell int | FloatCell rat | StrCell string

definition needs_quote :: "string \<Rightarrow> bool" where
  "needs_quote s = list_ex (\<lambda>c. c \<in> {CHR '','', CHR 0x22, CHR 0x0A}) s"

definition csv_field :: "string \<Rightarrow> string" where
  "csv_field s =
     (if needs_quote s
      then [CHR 0x22] @ concat (map (\<lambda>c. if c = CHR 0x22 then [CHR 0x22, CHR 0x22] else [c]) s) @ [CHR 0x22]
      else s)"

fun render_cell :: "cell \<Rightarrow> string" where
  "render_cell (IntCell i) = csv_field (str_int i)"
| "render_cell (FloatCell x) = csv_field (float_repr x)"
| "render_cell (StrCell s) = csv_field s"

definition to_csv :: "string list \<Rightarrow> cell list list \<Rightarrow> string" where
  "to_csv columns rows =
     concat (map (\<lambda>line. line @ [CHR 0x0A])
       (join '','' (map csv_field columns) # map (\<lambda>row. join '','' (map render_cell row)) rows))"

text \<open>\<^verbatim>\<open>export_csv\<close>: the keys of the row dicts, the row of an order, and the text.\<close>

definition csv_header :: "string list" where
  "csv_header = [''Order ID'', ''Customer'', ''Type'', ''Items'', ''Total'', ''Date'']"

definition export_row :: "MenuItem list \<Rightarrow> OrderHistory \<Rightarrow> cell list" where
  "export_row objs ord =
     [IntCell (order_id ord), StrCell (customer_name ord),
      StrCell (if is_teacher ord then ''Teacher'' else ''Student''),
      StrCell (items_str objs ord), FloatCell (total_amount ord), StrCell (date ord)]"

definition export_csv :: "MenuItem list \<Rightarrow> OrderHistory list \<Rightarrow> string" where
  "export_csv objs ords =
     to_csv (if ords = [] then [] else csv_header)
       (map (export_row objs) ords)"

text \<open>
  \<^verbatim>\<open>app.py\<close> has no reader for its exports. To state what the text gives back, a reader
  for the dialect that \<^verbatim>\<open>to_csv\<close> writes: records ended by a newline, fields separated by
  commas, a field that starts with a double quote running to its closing double quote, two
  double quotes inside it standing for one. \<open>csv_records\<close> goes through the text with the
  field and the record read so far.
\<close>

datatype csv_mode = FieldStart | Plain | Quoted | QuoteSeen

fun csv_records :: "csv_mode \<Rightarrow> string \<Rightarrow> string list \<Rightarrow> string \<Rightarrow> string list list" where
  "csv_records m fld row [] = (if m = FieldStart \<and> row = [] then [] else [row @ [fld]])"
| "csv_records m fld row (c # cs) =
     (if m = Quoted then
        (if c = CHR 0x22 then csv_records QuoteSeen fld row cs
         else csv_records Quoted (fld @ [c]) row cs)
      else if c = CHR 0x22 \<and> m = FieldStart then csv_records Quoted fld row cs
      else if c = CHR 0x22 \<and> m = QuoteSeen then csv_records Quoted (fld @ [c]) row cs
      else if c = CHR '','' then csv_records FieldStart [] (row @ [fld]) cs
      else if c = CHR 0x0A then (row @ [fld]) # csv_records FieldStart [] [] cs
      else csv_records Plain (fld @ [c]) row cs)"

definition read_csv :: "string \<Rightarrow> string list list" where
  "read_csv text = csv_records FieldStart [] [] text"

text \<open>The lines of a text, every line ended by a newline.\<close>

fun split_on :: "char \<Rightarrow> string \<Rightarrow> string list" where
  "split_on c [] = [[]]"
| "split_on c (x # xs) =
     (if x = c then [] # split_on c xs
      else (case split_on c xs of [] \<Rightarrow> [[x]] | y # ys \<Rightarrow> (x # y) # ys))"

definition text_lines :: "string \<Rightarrow> string list" where
  "text_lines text = butlast (split_on CHR 0x0A text)"

text \<open>
  \<^verbatim>\<open>int(s)\<close> for a cell written by \<^verbatim>\<open>str\<close>, and \<^verbatim>\<open>float(s)\<close> for a cell written by
  \<^verbatim>\<open>repr\<close>: an optional minus sign, digits with an optional point, and an optional exponent
  after the letter e; the decimal number that the text denotes, rounded to the nearest float.
\<close>

definition digits_value :: "string \<Rightarrow> int" where
  "digits_value s = foldl (\<lambda>a c. 10 * a + (int (of_char c) - 48)) 0 s"

definition read_int :: "string \<Rightarrow> int" where
  "read_int s = (case s of [] \<Rightarrow> 0 | c # cs \<Rightarrow> if c = CHR ''-'' then - digits_value cs else digits_value s)"

definition read_exponent :: "string \<Rightarrow> int" where
  "read_exponent s =
     (case s of [] \<Rightarrow> 0
      | c # cs \<Rightarrow> if c = CHR ''-'' then - digits_value cs
                  else if c = CHR ''+'' then digits_value cs else digits_value s)"

definition read_unsigned :: "string \<Rightarrow> rat" where
  "read_unsigned s =
     (let mant = takeWhile (\<lambda>c. c \<noteq> CHR ''e'') s;
          ex = drop (length mant + 1) s;
          ip = takeWhile (\<lambda>c. c \<noteq> CHR ''.'') mant;
          fp = drop (length ip + 1) mant
      in of_int (digits_value (ip @ fp)) * pow10 (read_exponent ex - int (length fp)))"

definition read_decimal :: "string \<Rightarrow> rat" where
  "read_decimal s =
     (case s of [] \<Rightarrow> 0
      | c # cs \<Rightarrow> if c = CHR ''-'' then - read_unsigned cs else read_unsigned s)"

definition read_float :: "string \<Rightarrow> rat" where
  "read_float s = fl (read_decimal s)"

text \<open>
  The six texts of an order's row; the ledgers whose totals are floats; and the ledgers none
  of whose text fields holds a newline.
\<close>

definition row_texts :: "MenuItem list \<Rightarrow> OrderHistory \<Rightarrow> string list" where
  "row_texts objs ord =
     [str_int (order_id ord), customer_name ord,
      if is_teacher ord then ''Teacher'' else ''Student'',
      items_str objs ord, float_repr (total_amount ord), date ord]"

definition float_totals :: "OrderHistory list \<Rightarrow> bool" where
  "float_totals ords \<longleftrightarrow> (\<forall>ord \<in> set ords. fl (total_amount ord) = total_amount ord)"

definition single_line_fields :: "MenuItem list \<Rightarrow> OrderHistory list \<Rightarrow> bool" where
  "single_line_fields objs ords \<longleftrightarrow>
     (\<forall>ord \<in> set ords. CHR 0x0A \<notin> set (customer_name ord) \<and> CHR 0x0A \<notin> set (date ord)
        \<and> (\<forall>line \<in> set (items ord). CHR 0x0A \<notin> set (name (objs ! fst line))))"

section \<open>The application as a transition system\<close>

datatype action =
    Plus int
  | Minus int
  | ClearCart
  | PlaceOrder string bool string
  | AddDish string rat string rat "string option"
  | DeleteDish ref
  | DeleteOrder OrderHistory
  | ShowRecommendations

fun step :: "action \<Rightarrow> session_state \<Rightarrow> message list \<times> session_state" where
  "step (Plus fid) s = ([], display_menu_item_plus fid s)"
| "step (Minus fid) s = ([], display_menu_item_minus fid s)"
| "step ClearCart s = ([], clear_cart_button s)"
| "step (PlaceOrder customer teacher now) s = place_order_button customer teacher now s"
| "step (AddDish nm pr cat rt img) s = add_dish nm pr cat rt img s"
| "step (DeleteDish r) s = ([], delete_dish r s)"
| "step (DeleteOrder ord) s = ([], delete_order ord s)"
| "step ShowRecommendations s =
     (if orders s = [] then ([], s) else ([], snd (cached_get_popular_items 3 s)))"

fun run :: "action list \<Rightarrow> session_state \<Rightarrow> session_state" where
  "run [] s = s"
| "run (a # as) s = run as (snd (step a s))"

section \<open>Invariants and traces\<close>

text \<open>Every quantity stored in the cart is strictly positive.\<close>

definition cart_positive :: "session_state \<Rightarrow> bool" where
  "cart_positive s \<longleftrightarrow> (\<forall>e \<in> set (cart s). 0 < snd e)"

text \<open>
  Every reference of the catalog points into the object store, and the identifiers of the
  items in the catalog are pairwise different.
\<close>

definition refs_valid :: "session_state \<Rightarrow> bool" where
  "refs_valid s \<longleftrightarrow> (\<forall>r \<in> set (menu_items s). r < length (objects s))"

definition catalog_ids :: "session_state \<Rightarrow> int list" where
  "catalog_ids s = food_ids (objects s) (menu_items s)"

definition catalog_ok :: "session_state \<Rightarrow> bool" where
  "catalog_ok s \<longleftrightarrow> refs_valid s \<and> distinct (catalog_ids s)"

text \<open>Every line of every order in the ledger refers to an object of the store.\<close>

definition order_refs_valid :: "session_state \<Rightarrow> bool" where
  "order_refs_valid s \<longleftrightarrow> (\<forall>ord \<in> set (orders s). \<forall>line \<in> set (items ord). fst line < length (objects s))"

text \<open>
  The orders that one step appends to the ledger, and the identifiers of the orders appended
  along a run, in the order of their placement.
\<close>

definition appended_orders :: "action \<Rightarrow> session_state \<Rightarrow> OrderHistory list" where
  "appended_orders a s = drop (length (orders s)) (orders (snd (step a s)))"

fun placed_ids :: "action list \<Rightarrow> session_state \<Rightarrow> int list" where
  "placed_ids [] s = []"
| "placed_ids (a # as) s = map order_id (appended_orders a s) @ placed_ids as (snd (step a s))"

section \<open>Example states\<close>

text \<open>The default menu without image files, and a cart that holds only an identifier that no
  menu item bears.\<close>

definition orphan_cart_state :: session_state where
  "orphan_cart_state = (initialize_session_state (\<lambda>fid. None))\<lparr>cart := [(99, 1)]\<rparr>"


text \<open>The cart of the scenario: item 1 added twice, item 2 once, on the default menu.\<close>

definition scenario_cart_state :: session_state where
  "scenario_cart_state = run [Plus 1, Plus 1, Plus 2] (initialize_session_state (\<lambda>fid. None))"


text \<open>
  The scenario continued: the cart is placed as an order of Alice, then a fresh cart with item
  2 alone is placed.
\<close>

definition scenario_first_order :: session_state where
  "scenario_first_order = snd (place_order ''Alice'' False ''03-11-2026 10:00'' scenario_cart_state)"

definition scenario_second_order :: session_state where
  "scenario_second_order =
     run [Plus 2, PlaceOrder ''Alice'' False ''03-11-2026 10:05''] scenario_first_order"

text \<open>
  One order of three Coffee and one Burger on the default menu; and a catalog of two items
  that bear the same identifier, with an order of the first.
\<close>

definition popular_scenario :: session_state where
  "popular_scenario =
     run [Plus 2, Plus 2, Plus 2, Plus 1, PlaceOrder ''Alice'' False ''03-11-2026 10:00'']
       (initialize_session_state (\<lambda>fid. None))"

text \<open>
  An order with a tie: one Pizza, one Burger and two Coffee, added to the cart in this order.
  And the first scenario after the recommendations have been shown (which fills the cache for
  \<open>limit\<close> 3) and Burger has then been deleted from the menu.
\<close>

definition tie_scenario :: session_state where
  "tie_scenario =
     run [Plus 3, Plus 1, Plus 2, Plus 2, PlaceOrder ''Alice'' False ''03-11-2026 10:00'']
       (initialize_session_state (\<lambda>fid. None))"

definition stale_cache_scenario :: session_state where
  "stale_cache_scenario = run [ShowRecommendations, DeleteDish 0] popular_scenario"

definition twin_objects :: "MenuItem list" where
  "twin_objects =
     [\<lparr>food_id = 1, name = ''Burger'', price = fl (7023 / 100), rating = fl (45 / 10),
       image_data = None, category = ''Main Course'', tags = []\<rparr>,
      \<lparr>food_id = 1, name = ''Veg Burger'', price = fl (60), rating = fl (4),
       image_data = None, category = ''Main Course'', tags = []\<rparr>]"

definition twin_order :: OrderHistory where
  "twin_order = \<lparr>order_id = 1, customer_name = ''Alice'', items = [(0, 1)],
     total_amount = fl (7023 / 100), date = ''03-11-2026 10:00'', is_teacher = False\<rparr>"


text \<open>Three successful placements, a deletion of the second order and a failed placement.\<close>

definition three_orders :: "action list" where
  "three_orders =
     [Plus 1, PlaceOrder ''Alice'' False ''03-11-2026 10:00'',
      Plus 2, PlaceOrder ''Bob'' True ''03-11-2026 10:05'',
      DeleteOrder \<lparr>order_id = 2, customer_name = ''Bob'', items = [(1, 1)],
        total_amount = fl (7020 / 100), date = ''03-11-2026 10:05'', is_teacher = True\<rparr>,
      Plus 99, PlaceOrder ''Carol'' False ''03-11-2026 10:07'',
      Plus 3, PlaceOrder ''Carol'' False ''03-11-2026 10:08'']"


text \<open>The admin deletes the last dish of the default menu and adds a new one.\<close>

definition readd_actions :: "action list" where
  "readd_actions = [DeleteDish 7, AddDish ''Kulfi'' (fl 55) ''Dessert'' (fl 4) None]"

section \<open>Facts about the float model\<close>











text \<open>The default menu with its float literals evaluated.\<close>

lemma menu_data_values [code]:
  "menu_data =
    [(1, ''Burger'', 4941996903597343 / 70368744177664, 9 / 2, ''Main Course'', [''popular'', ''non-veg'']),
     (2, ''Coffee'', 4939885841272013 / 70368744177664, 4, ''Beverage'', [''popular'', ''hot'']),
     (3, ''Pizza'', 1043480515224535 / 4398046511104, 5291729562160333 / 1125899906842624, ''Main Course'', [''popular'', ''vegetarian'']),
     (4, ''Pasta'', 150, 4841369599423283 / 1125899906842624, ''Main Course'', [''vegetarian'']),
     (5, ''Sandwich'', 161 / 2, 4728779608739021 / 1125899906842624, ''Main Course'', [''vegetarian'']),
     (6, ''Fries'', 60, 4, ''Side Dish'', [''popular'', ''vegetarian'']),
     (7, ''Salad'', 90, 2476979795053773 / 562949953421312, ''Side Dish'', [''vegetarian'', ''healthy'']),
     (8, ''Ice Cream'', 50, 2589569785738035 / 562949953421312, ''Dessert'', [''popular'', ''sweet''])]"
  unfolding menu_data_def by code_simp

section \<open>Failed placements\<close>

lemma cart_loop_acc:
  "fst (cart_loop objs menu c acc tot) = acc @ fst (cart_loop objs menu c [] tot')"
proof (induction c arbitrary: acc tot tot')
  case Nil
  show ?case by simp
next
  case (Cons e c)
  obtain fid qty where e: "e = (fid, qty)" by (cases e)
  show ?case
  proof (cases "lookup_item objs menu fid")
    case None
    then show ?thesis using Cons.IH [of acc tot tot'] by (simp add: e)
  next
    case (Some r)
    have "fst (cart_loop objs menu (e # c) acc tot)
        = (acc @ [(r, qty)]) @ fst (cart_loop objs menu c [] 0)"
      using Cons.IH [of "acc @ [(r, qty)]" _ 0] by (simp add: e Some)
    moreover have "fst (cart_loop objs menu (e # c) [] tot')
        = [(r, qty)] @ fst (cart_loop objs menu c [] 0)"
      using Cons.IH [of "[(r, qty)]" _ 0] by (simp add: e Some)
    ultimately show ?thesis by simp
  qed
qed

lemma cart_loop_unresolved:
  assumes "\<forall>e \<in> set c. lookup_item objs menu (fst e) = None"
  shows "cart_loop objs menu c acc tot = (acc, tot)"
  using assms
proof (induction c arbitrary: acc tot)
  case Nil
  show ?case by simp
next
  case (Cons e c)
  then show ?case by (cases e) simp
qed

lemma lookup_item_None:
  "lookup_item objs menu fid = None \<longleftrightarrow> fid \<notin> set (food_ids objs menu)"
  by (auto simp: lookup_item_def food_ids_def find_None_iff)

lemma place_order_nothing_resolves:
  assumes "fst (cart_loop (objects s) (menu_items s) (cart s) [] (py_float 0)) = []"
  shows "place_order customer teacher now s = ([], s)"
proof (cases "cart_loop (objects s) (menu_items s) (cart s) [] (py_float 0)")
  case (Pair items_ordered tot)
  with assms show ?thesis by (simp add: place_order_def)
qed

lemma orphan_cart_unresolved:
  "\<forall>e \<in> set (cart orphan_cart_state).
     fst e \<notin> set (food_ids (objects orphan_cart_state) (menu_items orphan_cart_state))"
  by (simp add: orphan_cart_state_def initialize_session_state_def load_default_menu_def
      menu_data_def food_ids_def)

lemma orphan_cart_snapshot:
  "fst (cart_loop (objects orphan_cart_state) (menu_items orphan_cart_state)
     (cart orphan_cart_state) [] (py_float 0)) = []"
  using orphan_cart_unresolved
  by (subst cart_loop_unresolved) (simp_all add: lookup_item_None)

text \<open>
  C3 (as the code has it): when no entry of the cart resolves against the catalog, so that
  the list of ordered items is empty, \<^verbatim>\<open>place_order\<close> does nothing and reports nothing:
  no error message is shown (and Python raises no exception), and the ledger keeps its
  length.
\<close>

theorem place_order_empty_snapshot_silent:
  assumes "fst (cart_loop (objects s) (menu_items s) (cart s) [] (py_float 0)) = []"
  shows "fst (place_order customer teacher now s) = []
       \<and> length (orders (snd (place_order customer teacher now s))) = length (orders s)"
  using place_order_nothing_resolves [OF assms] by simp

theorem place_order_empty_snapshot_silent_witness:
  "fst (cart_loop (objects orphan_cart_state) (menu_items orphan_cart_state)
     (cart orphan_cart_state) [] (py_float 0)) = []
   \<and> fst (place_order ''Alice'' False ''03-11-2026 10:00'' orphan_cart_state) = []
   \<and> length (orders (snd (place_order ''Alice'' False ''03-11-2026 10:00'' orphan_cart_state)))
       = length (orders orphan_cart_state)"
  using orphan_cart_snapshot place_order_empty_snapshot_silent [OF orphan_cart_snapshot]
  by simp

text \<open>
  The claim as the spec states it asks for a validation failure. With the default menu and a
  cart that holds only the identifier 99, which no menu item bears, the list of ordered items
  is empty and \<^verbatim>\<open>place_order\<close> shows no error, nor anything else.
\<close>

theorem place_order_empty_snapshot_no_error:
  "fst (cart_loop (objects orphan_cart_state) (menu_items orphan_cart_state)
     (cart orphan_cart_state) [] (py_float 0)) = []
   \<and> \<not> (\<exists>text. Error text \<in> set (fst (place_order ''Alice'' False ''03-11-2026 10:00'' orphan_cart_state)))"
  using orphan_cart_snapshot place_order_nothing_resolves [OF orphan_cart_snapshot]
  by simp

text \<open>
  C10: when none of the cart's identifiers is the identifier of a catalog item (a cart of
  orphaned identifiers included), \<^verbatim>\<open>place_order\<close> leaves the whole state as it was: no
  order is appended, the order counter keeps its value, the cart keeps its entries and the
  cache of popular items keeps its entries. The same holds for the button that calls it.
\<close>

theorem place_order_failed_atomic:
  assumes "\<forall>e \<in> set (cart s). fst e \<notin> set (food_ids (objects s) (menu_items s))"
  shows "snd (place_order customer teacher now s) = s
       \<and> orders (snd (place_order customer teacher now s)) = orders s
       \<and> order_index (snd (place_order customer teacher now s)) = order_index s
       \<and> cart (snd (place_order customer teacher now s)) = cart s
       \<and> popular_cache (snd (place_order customer teacher now s)) = popular_cache s
       \<and> snd (place_order_button customer teacher now s) = s"
proof -
  have "cart_loop (objects s) (menu_items s) (cart s) [] (py_float 0) = ([], py_float 0)"
    using assms by (intro cart_loop_unresolved) (simp add: lookup_item_None)
  then have "place_order customer teacher now s = ([], s)"
    by (intro place_order_nothing_resolves) simp
  then show ?thesis by (simp add: place_order_button_def)
qed

theorem place_order_failed_atomic_witness:
  "cart orphan_cart_state = [(99, 1)]
   \<and> snd (place_order ''Alice'' False ''03-11-2026 10:00'' orphan_cart_state) = orphan_cart_state
   \<and> cart (snd (place_order ''Alice'' False ''03-11-2026 10:00'' orphan_cart_state)) = [(99, 1)]
   \<and> order_index (snd (place_order ''Alice'' False ''03-11-2026 10:00'' orphan_cart_state)) = 1"
proof -
  have c: "cart orphan_cart_state = [(99, 1)]" "order_index orphan_cart_state = 1"
    by (simp_all add: orphan_cart_state_def initialize_session_state_def Let_def)
  show ?thesis
    using place_order_failed_atomic [OF orphan_cart_unresolved, of "''Alice''" False "''03-11-2026 10:00''"] c
    by simp
qed

section \<open>The cart's quantities\<close>

lemma map_of_dict_set: "map_of (dict_set d k v) = (map_of d)(k \<mapsto> v)"
  by (induction d k v rule: dict_set.induct) auto

lemma set_dict_set: "set (dict_set d k v) \<subseteq> insert (k, v) (set d)"
  by (induction d k v rule: dict_set.induct) auto

lemma dict_get_dict_set: "dict_get (dict_set d k v) k' dflt = (if k' = k then v else dict_get d k' dflt)"
  by (simp add: dict_get_def map_of_dict_set)

lemma keys_dict_pop: "k \<notin> fst ` set (dict_pop d k)"
  by (auto simp: dict_pop_def)

lemma dict_get_positive:
  assumes "\<forall>e \<in> set d. 0 < snd e"
  shows "0 \<le> dict_get d k (0::int)"
proof (cases "map_of d k")
  case None
  then show ?thesis by (simp add: dict_get_def)
next
  case (Some v)
  then have "(k, v) \<in> set d" by (rule map_of_SomeD)
  with assms have "0 < v" by fastforce
  with Some show ?thesis by (simp add: dict_get_def)
qed

lemma plus_positive:
  assumes "cart_positive s"
  shows "cart_positive (display_menu_item_plus fid s)"
proof -
  have "0 \<le> dict_get (cart s) fid 0"
    using assms by (intro dict_get_positive) (simp add: cart_positive_def)
  then show ?thesis
    using assms set_dict_set [of "cart s" fid "dict_get (cart s) fid 0 + 1"]
    by (auto simp: cart_positive_def display_menu_item_plus_def)
qed

lemma minus_positive:
  assumes "cart_positive s"
  shows "cart_positive (display_menu_item_minus fid s)"
  using assms set_dict_set [of "cart s" fid "dict_get (cart s) fid 0 - 1"]
  by (auto simp: cart_positive_def display_menu_item_minus_def dict_pop_def Let_def)

lemma step_positive:
  assumes "cart_positive s"
  shows "cart_positive (snd (step a s))"
proof (cases a)
  case (Plus fid)
  then show ?thesis using assms by (simp add: plus_positive)
next
  case (Minus fid)
  then show ?thesis using assms by (simp add: minus_positive)
next
  case ClearCart
  then show ?thesis using assms by (simp add: clear_cart_button_def cart_positive_def)
next
  case (PlaceOrder customer teacher now)
  then show ?thesis using assms
    by (auto simp: place_order_button_def place_order_def cart_positive_def Let_def split: prod.splits)
next
  case (AddDish nm pr cat rt img)
  then show ?thesis using assms by (simp add: add_dish_def cart_positive_def Let_def)
next
  case (DeleteDish r)
  then show ?thesis using assms by (simp add: delete_dish_def cart_positive_def)
next
  case (DeleteOrder ord)
  then show ?thesis using assms by (simp add: delete_order_def cart_positive_def)
next
  case ShowRecommendations
  then show ?thesis using assms
    by (simp add: cached_get_popular_items_def cart_positive_def Let_def split: option.splits)
qed

lemma run_positive:
  assumes "cart_positive s"
  shows "cart_positive (run acts s)"
  using assms by (induction acts arbitrary: s) (simp_all add: step_positive)

text \<open>
  C9: from a cart whose stored quantities are all strictly positive (the empty cart of a new
  session is one), every sequence of actions of the application, the plus and minus buttons
  among them, leads to a cart whose stored quantities are all strictly positive: no entry
  holds 0 or a negative quantity. The minus button at quantity 1 removes the entry, at a
  quantity above 1 it lowers the quantity by exactly 1; the plus button raises it by 1.
\<close>

theorem cart_quantities_positive:
  assumes "\<forall>e \<in> set (cart s). 0 < snd e"
  shows "(\<forall>e \<in> set (cart (run acts s)). 0 < snd e)
       \<and> (\<forall>e \<in> set (cart (run acts (initialize_session_state images))). 0 < snd e)
       \<and> (dict_get (cart s) fid 0 = 1 \<longrightarrow>
            fid \<notin> fst ` set (cart (display_menu_item_minus fid s)))
       \<and> (1 < dict_get (cart s) fid 0 \<longrightarrow>
            dict_get (cart (display_menu_item_minus fid s)) fid 0 = dict_get (cart s) fid 0 - 1)
       \<and> dict_get (cart (display_menu_item_plus fid s)) fid 0 = dict_get (cart s) fid 0 + 1"
proof -
  have "cart_positive (run acts s)"
    using assms by (intro run_positive) (simp add: cart_positive_def)
  moreover have "cart_positive (run acts (initialize_session_state images))"
    by (intro run_positive) (simp add: cart_positive_def initialize_session_state_def Let_def)
  moreover have "dict_get (cart s) fid 0 = 1 \<longrightarrow>
      fid \<notin> fst ` set (cart (display_menu_item_minus fid s))"
    using keys_dict_pop [of fid "cart s"] by (simp add: display_menu_item_minus_def)
  moreover have "1 < dict_get (cart s) fid 0 \<longrightarrow>
      dict_get (cart (display_menu_item_minus fid s)) fid 0 = dict_get (cart s) fid 0 - 1"
    by (simp add: display_menu_item_minus_def dict_get_dict_set)
  moreover have "dict_get (cart (display_menu_item_plus fid s)) fid 0 = dict_get (cart s) fid 0 + 1"
    by (simp add: display_menu_item_plus_def dict_get_dict_set)
  ultimately show ?thesis by (simp add: cart_positive_def)
qed

lemma scenario_cart: "cart scenario_cart_state = [(1, 2), (2, 1)]"
  by (simp add: scenario_cart_state_def initialize_session_state_def Let_def
      display_menu_item_plus_def dict_get_def)

theorem cart_quantities_positive_witness:
  "cart scenario_cart_state = [(1, 2), (2, 1)]
   \<and> cart (display_menu_item_minus 2 scenario_cart_state) = [(1, 2)]
   \<and> cart (display_menu_item_minus 1 scenario_cart_state) = [(1, 1), (2, 1)]
   \<and> list_all (\<lambda>e. 0 < snd e) (cart (run [Minus 1, Minus 1, Minus 1, Plus 3] scenario_cart_state))"
proof -
  have h: "\<forall>e \<in> set (cart scenario_cart_state). 0 < snd e"
    by (simp add: scenario_cart)
  show ?thesis
    using cart_quantities_positive [OF h, of "[Minus 1, Minus 1, Minus 1, Plus 3]" "\<lambda>fid. None" 2]
    by (simp add: scenario_cart display_menu_item_minus_def dict_get_def dict_pop_def list_all_iff)
qed

section \<open>Order identifiers\<close>

lemma place_order_effect:
  "(place_order customer teacher now s = ([], s))
   \<or> (\<exists>ord. orders (snd (place_order customer teacher now s)) = orders s @ [ord]
          \<and> order_id ord = order_index s
          \<and> order_index (snd (place_order customer teacher now s)) = order_index s + 1)"
  by (cases "cart_loop (objects s) (menu_items s) (cart s) [] (py_float 0)")
     (simp add: place_order_def Let_def)

lemma length_remove1_le: "length (remove1 x xs) \<le> length xs"
  by (simp add: length_remove1)

lemma step_order_effect:
  "(appended_orders a s = [] \<and> order_index (snd (step a s)) = order_index s
      \<and> set (orders (snd (step a s))) \<subseteq> set (orders s))
   \<or> (\<exists>ord. appended_orders a s = [ord] \<and> order_id ord = order_index s
          \<and> order_index (snd (step a s)) = order_index s + 1
          \<and> orders (snd (step a s)) = orders s @ [ord])"
proof (cases a)
  case (PlaceOrder customer teacher now)
  show ?thesis
    using place_order_effect [of customer teacher now s]
    by (auto simp: PlaceOrder appended_orders_def place_order_button_def)
next
  case (DeleteOrder ord)
  then show ?thesis
    using length_remove1_le [of ord "orders s"] set_remove1_subset [of ord "orders s"]
    by (auto simp: appended_orders_def delete_order_def)
next
  case ShowRecommendations
  then show ?thesis
    by (simp add: appended_orders_def cached_get_popular_items_def Let_def split: option.splits)
qed (simp_all add: appended_orders_def display_menu_item_plus_def display_menu_item_minus_def
      clear_cart_button_def add_dish_def delete_dish_def Let_def)

lemma placed_ids_interval:
  "order_index s \<le> order_index (run acts s)
   \<and> placed_ids acts s = [order_index s .. order_index (run acts s) - 1]"
proof (induction acts arbitrary: s)
  case Nil
  show ?case by simp
next
  case (Cons a acts)
  let ?s' = "snd (step a s)"
  note IH = Cons.IH [of ?s']
  from step_order_effect [of a s] show ?case
  proof
    assume "appended_orders a s = [] \<and> order_index ?s' = order_index s
      \<and> set (orders ?s') \<subseteq> set (orders s)"
    with IH show ?thesis by simp
  next
    assume "\<exists>ord. appended_orders a s = [ord] \<and> order_id ord = order_index s
      \<and> order_index ?s' = order_index s + 1 \<and> orders ?s' = orders s @ [ord]"
    then obtain ord where o: "appended_orders a s = [ord]" "order_id ord = order_index s"
      "order_index ?s' = order_index s + 1" by blast
    from IH o have le: "order_index s + 1 \<le> order_index (run acts ?s')" by simp
    have "[order_index s .. order_index (run acts ?s') - 1]
        = order_index s # [order_index s + 1 .. order_index (run acts ?s') - 1]"
      using le by (intro upto_rec1) simp
    with IH o le show ?thesis by simp
  qed
qed

lemma ledger_ids_placed:
  "set (map order_id (orders (run acts s)))
   \<subseteq> set (map order_id (orders s)) \<union> set (placed_ids acts s)"
proof (induction acts arbitrary: s)
  case Nil
  show ?case by simp
next
  case (Cons a acts)
  let ?s' = "snd (step a s)"
  have "set (map order_id (orders ?s'))
      \<subseteq> set (map order_id (orders s)) \<union> set (map order_id (appended_orders a s))"
    using step_order_effect [of a s] by auto
  with Cons.IH [of ?s'] show ?case by auto
qed

text \<open>
  C6: along every sequence of actions from the initial state (placements, deletions of
  orders and all other actions), the order counter starts at 1, the identifiers given to the
  orders placed are 1, 2, 3, ... in the order of placement: strictly increasing, one more per
  successful placement, no identifier given twice. The identifiers in the ledger are among
  them, so deleting an order never frees its identifier.
\<close>

theorem order_ids_increasing:
  "order_index (initialize_session_state images) = 1
   \<and> placed_ids acts (initialize_session_state images)
       = [1 .. int (length (placed_ids acts (initialize_session_state images)))]
   \<and> sorted_wrt (<) (placed_ids acts (initialize_session_state images))
   \<and> distinct (placed_ids acts (initialize_session_state images))
   \<and> order_index (run acts (initialize_session_state images))
       = 1 + int (length (placed_ids acts (initialize_session_state images)))
   \<and> set (map order_id (orders (run acts (initialize_session_state images))))
       \<subseteq> set (placed_ids acts (initialize_session_state images))"
proof -
  let ?s = "initialize_session_state images"
  have i: "order_index ?s = 1" and e: "orders ?s = []"
    by (simp_all add: initialize_session_state_def Let_def)
  have p: "placed_ids acts ?s = [1 .. order_index (run acts ?s) - 1]"
    and le: "1 \<le> order_index (run acts ?s)"
    using placed_ids_interval [of ?s acts] by (simp_all add: i)
  have n: "int (length (placed_ids acts ?s)) = order_index (run acts ?s) - 1"
    using le by (simp add: p)
  have "sorted_wrt (<) (placed_ids acts ?s)"
    by (simp add: p)
  moreover have "distinct (placed_ids acts ?s)"
    by (simp add: p)
  moreover have "set (map order_id (orders (run acts ?s))) \<subseteq> set (placed_ids acts ?s)"
    using ledger_ids_placed [of acts ?s] by (simp add: e)
  moreover have "placed_ids acts ?s = [1 .. int (length (placed_ids acts ?s))]"
    using p n by simp
  ultimately show ?thesis using i n by simp
qed

lemma three_orders_run:
  "placed_ids three_orders (initialize_session_state (\<lambda>fid. None)) = [1, 2, 3]"
  "map order_id (orders (run three_orders (initialize_session_state (\<lambda>fid. None)))) = [1, 3]"
  by code_simp+

theorem order_ids_increasing_witness:
  "placed_ids three_orders (initialize_session_state (\<lambda>fid. None)) = [1, 2, 3]
   \<and> map order_id (orders (run three_orders (initialize_session_state (\<lambda>fid. None)))) = [1, 3]
   \<and> order_index (run three_orders (initialize_session_state (\<lambda>fid. None))) = 4"
  using order_ids_increasing [of "\<lambda>fid. None" three_orders] three_orders_run
  by simp

section \<open>Menu identifiers\<close>

lemma py_max_Max: "py_max xs d = (if xs = [] then d else Max (set xs))"
proof (cases xs)
  case Nil
  then show ?thesis by simp
next
  case (Cons x ys)
  have "(\<lambda>a b. max b a) = (max :: int \<Rightarrow> int \<Rightarrow> int)"
    by (intro ext) (simp add: max.commute)
  then have "foldl max x ys = fold max ys x"
    by (simp add: foldl_conv_fold)
  then show ?thesis using Max.set_eq_fold [of x ys] by (simp add: Cons)
qed

lemma py_max_greater:
  assumes "i \<in> set xs"
  shows "i < py_max xs d + 1"
proof -
  have "i \<le> Max (set xs)" using assms by simp
  with assms show ?thesis by (auto simp: py_max_Max)
qed

lemma food_ids_append_object:
  assumes "\<forall>r \<in> set menu. r < length objs"
  shows "food_ids (objs @ [x]) (menu @ [length objs]) = food_ids objs menu @ [food_id x]"
  using assms by (simp add: food_ids_def nth_append)

lemma add_dish_rejected:
  assumes "\<not> (nm \<noteq> [] \<and> 0 < pr)"
  shows "add_dish nm pr cat rt img s = ([Error ''Fill required fields''], s)"
  using assms by (auto simp: add_dish_def)

lemma add_dish_accepted:
  assumes "nm \<noteq> []" "0 < pr"
  shows "add_dish nm pr cat rt img s =
    ([Success (''Added '' @ nm)],
     s\<lparr>objects := objects s @
          [\<lparr>food_id = py_max (catalog_ids s) 0 + 1, name = nm, price = pr, rating = rt,
            image_data = img, category = cat, tags = []\<rparr>],
       menu_items := menu_items s @ [length (objects s)]\<rparr>)"
  using assms by (simp add: add_dish_def catalog_ids_def Let_def)

lemma add_dish_catalog_ok:
  assumes "catalog_ok s"
  shows "catalog_ok (snd (add_dish nm pr cat rt img s))"
proof (cases "nm \<noteq> [] \<and> 0 < pr")
  case False
  then show ?thesis using assms by (simp add: add_dish_rejected)
next
  case True
  let ?new = "py_max (catalog_ids s) 0 + 1"
  have v: "\<forall>r \<in> set (menu_items s). r < length (objects s)"
    using assms by (simp add: catalog_ok_def refs_valid_def)
  have "?new \<notin> set (catalog_ids s)"
    using py_max_greater [of ?new "catalog_ids s" 0] by auto
  moreover have "distinct (catalog_ids s)"
    using assms by (simp add: catalog_ok_def)
  ultimately show ?thesis
    using True v
    by (auto simp: add_dish_accepted catalog_ok_def refs_valid_def catalog_ids_def
        food_ids_append_object less_Suc_eq)
qed

lemma distinct_map_remove1:
  assumes "distinct (map f xs)"
  shows "distinct (map f (remove1 x xs))"
proof -
  from assms have "distinct xs" "inj_on f (set xs)" by (simp_all add: distinct_map)
  then have "distinct (remove1 x xs)" "inj_on f (set (remove1 x xs))"
    by (auto intro: inj_on_subset set_remove1_subset)
  then show ?thesis by (simp add: distinct_map)
qed

lemma delete_dish_catalog_ok:
  assumes "catalog_ok s"
  shows "catalog_ok (delete_dish r s)"
  using assms
  by (auto simp: catalog_ok_def refs_valid_def catalog_ids_def food_ids_def delete_dish_def
      distinct_map_remove1 dest: notin_set_remove1)

lemma step_catalog:
  assumes "\<forall>nm pr cat rt img. a \<noteq> AddDish nm pr cat rt img" "\<forall>r. a \<noteq> DeleteDish r"
  shows "objects (snd (step a s)) = objects s \<and> menu_items (snd (step a s)) = menu_items s"
proof (cases a)
  case (PlaceOrder customer teacher now)
  then show ?thesis
    by (cases "cart_loop (objects s) (menu_items s) (cart s) [] (py_float 0)")
       (simp add: place_order_button_def place_order_def Let_def)
next
  case ShowRecommendations
  then show ?thesis by (simp add: cached_get_popular_items_def Let_def split: option.splits)
qed (use assms in \<open>simp_all add: display_menu_item_plus_def display_menu_item_minus_def
      clear_cart_button_def delete_order_def Let_def\<close>)

lemma step_catalog_ok:
  assumes "catalog_ok s"
  shows "catalog_ok (snd (step a s))"
proof (cases a)
  case (AddDish nm pr cat rt img)
  then show ?thesis using assms by (simp add: add_dish_catalog_ok)
next
  case (DeleteDish r)
  then show ?thesis using assms by (simp add: delete_dish_catalog_ok)
qed (use assms step_catalog [of a s] in \<open>simp_all add: catalog_ok_def refs_valid_def catalog_ids_def\<close>)

lemma run_catalog_ok:
  assumes "catalog_ok s"
  shows "catalog_ok (run acts s)"
  using assms by (induction acts arbitrary: s) (simp_all add: step_catalog_ok)

lemma initial_catalog_ok: "catalog_ok (initialize_session_state images)"
  by (simp add: catalog_ok_def refs_valid_def catalog_ids_def food_ids_def
      initialize_session_state_def load_default_menu_def menu_data_def Let_def)

lemma add_dish_catalog_ids:
  assumes "catalog_ok s" "nm \<noteq> []" "0 < pr"
  shows "catalog_ids (snd (add_dish nm pr cat rt img s))
       = catalog_ids s @ [(if catalog_ids s = [] then 0 else Max (set (catalog_ids s))) + 1]"
proof -
  have v: "\<forall>r \<in> set (menu_items s). r < length (objects s)"
    using assms(1) by (simp add: catalog_ok_def refs_valid_def)
  have m: "py_max (catalog_ids s) 0 = (if catalog_ids s = [] then 0 else Max (set (catalog_ids s)))"
    by (rule py_max_Max)
  show ?thesis
    unfolding m [symmetric]
    using assms(2,3) v by (simp add: add_dish_accepted catalog_ids_def food_ids_append_object)
qed

text \<open>
  C4 (as the code has it): from a catalog with valid references and pairwise different
  identifiers (the default menu is one), every sequence of actions leads to a catalog whose
  identifiers are pairwise different. The "Add Dish" button with an empty name or with a
  price that is not above 0 shows an error and changes nothing; with a name and a price above
  0 it appends a new item whose identifier is the maximum of the identifiers now in the
  catalog (0 for an empty catalog) plus 1, which is above every identifier now in the
  catalog. So after an item is deleted, the next dish added gets the deleted item's
  identifier again whenever that identifier is the maximum of the remaining ones plus 1.
\<close>

theorem catalog_ids_distinct_add_max:
  assumes "refs_valid s" "distinct (catalog_ids s)"
  shows "distinct (catalog_ids (run acts s))
       \<and> distinct (catalog_ids (run acts (initialize_session_state images)))
       \<and> (nm = [] \<or> \<not> 0 < pr \<longrightarrow>
            add_dish nm pr cat rt img s = ([Error ''Fill required fields''], s))
       \<and> (nm \<noteq> [] \<and> 0 < pr \<longrightarrow>
            (let s' = snd (add_dish nm pr cat rt img s);
                 new_id = (if catalog_ids s = [] then 0 else Max (set (catalog_ids s))) + 1
             in menu_items s' = menu_items s @ [length (objects s)]
                \<and> objects s' = objects s @
                     [\<lparr>food_id = new_id, name = nm, price = pr, rating = rt,
                       image_data = img, category = cat, tags = []\<rparr>]
                \<and> catalog_ids s' = catalog_ids s @ [new_id]
                \<and> (\<forall>i \<in> set (catalog_ids s). i < new_id)))
       \<and> (nm \<noteq> [] \<and> 0 < pr
            \<and> (if catalog_ids (delete_dish r s) = [] then 0
                else Max (set (catalog_ids (delete_dish r s)))) + 1 = food_id (objects s ! r) \<longrightarrow>
            catalog_ids (snd (add_dish nm pr cat rt img (delete_dish r s)))
              = catalog_ids (delete_dish r s) @ [food_id (objects s ! r)])"
proof -
  have ok: "catalog_ok s" using assms by (simp add: catalog_ok_def)
  have v: "\<forall>r \<in> set (menu_items s). r < length (objects s)"
    using assms by (simp add: refs_valid_def)
  have 1: "distinct (catalog_ids (run acts s))"
    using run_catalog_ok [OF ok] by (simp add: catalog_ok_def)
  have 2: "distinct (catalog_ids (run acts (initialize_session_state images)))"
    using run_catalog_ok [OF initial_catalog_ok] by (simp add: catalog_ok_def)
  have 3: "nm = [] \<or> \<not> 0 < pr \<longrightarrow>
      add_dish nm pr cat rt img s = ([Error ''Fill required fields''], s)"
    using add_dish_rejected [of nm pr cat rt img s] by blast
  have 4: "nm \<noteq> [] \<and> 0 < pr \<longrightarrow>
            (let s' = snd (add_dish nm pr cat rt img s);
                 new_id = (if catalog_ids s = [] then 0 else Max (set (catalog_ids s))) + 1
             in menu_items s' = menu_items s @ [length (objects s)]
                \<and> objects s' = objects s @
                     [\<lparr>food_id = new_id, name = nm, price = pr, rating = rt,
                       image_data = img, category = cat, tags = []\<rparr>]
                \<and> catalog_ids s' = catalog_ids s @ [new_id]
                \<and> (\<forall>i \<in> set (catalog_ids s). i < new_id))"
  proof
    assume a: "nm \<noteq> [] \<and> 0 < pr"
    have m: "py_max (catalog_ids s) 0 = (if catalog_ids s = [] then 0 else Max (set (catalog_ids s)))"
      by (rule py_max_Max)
    have g: "\<forall>i \<in> set (catalog_ids s). i < py_max (catalog_ids s) 0 + 1"
      using py_max_greater [of _ "catalog_ids s" 0] by blast
    show "let s' = snd (add_dish nm pr cat rt img s);
                 new_id = (if catalog_ids s = [] then 0 else Max (set (catalog_ids s))) + 1
             in menu_items s' = menu_items s @ [length (objects s)]
                \<and> objects s' = objects s @
                     [\<lparr>food_id = new_id, name = nm, price = pr, rating = rt,
                       image_data = img, category = cat, tags = []\<rparr>]
                \<and> catalog_ids s' = catalog_ids s @ [new_id]
                \<and> (\<forall>i \<in> set (catalog_ids s). i < new_id)"
      unfolding Let_def m [symmetric]
      using a v g by (simp add: add_dish_accepted catalog_ids_def food_ids_append_object)
  qed
  have 5: "nm \<noteq> [] \<and> 0 < pr
            \<and> (if catalog_ids (delete_dish r s) = [] then 0
                else Max (set (catalog_ids (delete_dish r s)))) + 1 = food_id (objects s ! r) \<longrightarrow>
            catalog_ids (snd (add_dish nm pr cat rt img (delete_dish r s)))
              = catalog_ids (delete_dish r s) @ [food_id (objects s ! r)]"
  proof
    assume a: "nm \<noteq> [] \<and> 0 < pr
            \<and> (if catalog_ids (delete_dish r s) = [] then 0
                else Max (set (catalog_ids (delete_dish r s)))) + 1 = food_id (objects s ! r)"
    have "catalog_ok (delete_dish r s)" using ok by (rule delete_dish_catalog_ok)
    from add_dish_catalog_ids [OF this, of nm pr cat rt img] a
    show "catalog_ids (snd (add_dish nm pr cat rt img (delete_dish r s)))
              = catalog_ids (delete_dish r s) @ [food_id (objects s ! r)]"
      by simp
  qed
  from 1 2 3 4 5 show ?thesis by blast
qed

lemma readd_values:
  "catalog_ids (snd (add_dish ''Kulfi'' (fl 55) ''Dessert'' (fl 4) None
     (initialize_session_state (\<lambda>fid. None)))) = [1, 2, 3, 4, 5, 6, 7, 8, 9]"
  "catalog_ids (delete_dish 7 (initialize_session_state (\<lambda>fid. None))) = [1, 2, 3, 4, 5, 6, 7]"
  "catalog_ids (snd (add_dish ''Kulfi'' (fl 55) ''Dessert'' (fl 4) None
     (delete_dish 7 (initialize_session_state (\<lambda>fid. None))))) = [1, 2, 3, 4, 5, 6, 7, 8]"
  "catalog_ids (snd (add_dish ''Kulfi'' (fl 55) ''Dessert'' (fl 4) None
     (delete_dish 6 (delete_dish 7 (initialize_session_state (\<lambda>fid. None))))))
     = [1, 2, 3, 4, 5, 6, 7]"
  by code_simp+

theorem catalog_ids_distinct_add_max_witness:
  "refs_valid (initialize_session_state (\<lambda>fid. None))
   \<and> distinct (catalog_ids (initialize_session_state (\<lambda>fid. None)))
   \<and> catalog_ids (snd (add_dish ''Kulfi'' (fl 55) ''Dessert'' (fl 4) None
         (initialize_session_state (\<lambda>fid. None)))) = [1, 2, 3, 4, 5, 6, 7, 8, 9]
   \<and> add_dish ''Kulfi'' 0 ''Dessert'' (fl 4) None (initialize_session_state (\<lambda>fid. None))
       = ([Error ''Fill required fields''], initialize_session_state (\<lambda>fid. None))
   \<and> add_dish [] (fl 55) ''Dessert'' (fl 4) None (initialize_session_state (\<lambda>fid. None))
       = ([Error ''Fill required fields''], initialize_session_state (\<lambda>fid. None))
   \<and> distinct (catalog_ids (run readd_actions (initialize_session_state (\<lambda>fid. None))))
   \<and> catalog_ids (delete_dish 7 (initialize_session_state (\<lambda>fid. None))) = [1, 2, 3, 4, 5, 6, 7]
   \<and> catalog_ids (snd (add_dish ''Kulfi'' (fl 55) ''Dessert'' (fl 4) None
         (delete_dish 7 (initialize_session_state (\<lambda>fid. None))))) = [1, 2, 3, 4, 5, 6, 7, 8]
   \<and> catalog_ids (snd (add_dish ''Kulfi'' (fl 55) ''Dessert'' (fl 4) None
         (delete_dish 6 (delete_dish 7 (initialize_session_state (\<lambda>fid. None))))))
       = [1, 2, 3, 4, 5, 6, 7]"
proof -
  let ?s = "initialize_session_state (\<lambda>fid. None)"
  have h1: "refs_valid ?s" and h2: "distinct (catalog_ids ?s)"
    using initial_catalog_ok [of "\<lambda>fid. None"] by (simp_all add: catalog_ok_def)
  show ?thesis
    using h1 h2 readd_values
      catalog_ids_distinct_add_max [OF h1 h2, of readd_actions "\<lambda>fid. None" "''Kulfi''" 0
        "''Dessert''" "fl 4" None 7]
      catalog_ids_distinct_add_max [OF h1 h2, of readd_actions "\<lambda>fid. None" "[]" "fl 55"
        "''Dessert''" "fl 4" None 7]
    by simp
qed

text \<open>
  The claim as the spec states it has every identifier given once in the catalog's lifetime.
  On the default menu, deleting Ice Cream (identifier 8, the maximum) and adding a dish gives
  the new dish the identifier 8 again: two of the items created bear it.
\<close>

theorem food_id_assigned_again:
  "map food_id (objects (run readd_actions (initialize_session_state (\<lambda>fid. None))))
     = [1, 2, 3, 4, 5, 6, 7, 8, 8]
   \<and> name (objects (run readd_actions (initialize_session_state (\<lambda>fid. None))) ! 7) = ''Ice Cream''
   \<and> name (objects (run readd_actions (initialize_session_state (\<lambda>fid. None))) ! 8) = ''Kulfi''
   \<and> \<not> distinct (map food_id (objects (run readd_actions (initialize_session_state (\<lambda>fid. None)))))"
  by code_simp

section \<open>The scenario and the metrics\<close>

lemma scenario_cart_entries: "cart scenario_cart_state = [(1, 2), (2, 1)]"
  by code_simp

lemma scenario_snapshot: "map (\<lambda>(r, q). (name (objects scenario_cart_state ! r), price (objects scenario_cart_state ! r), q))
       (fst (cart_loop (objects scenario_cart_state) (menu_items scenario_cart_state)
              (cart scenario_cart_state) [] (py_float 0)))
     = [(''Burger'', fl (7023 / 100), 2), (''Coffee'', fl (7020 / 100), 1)]"
  by code_simp

lemma scenario_subtotal: "snd (cart_loop (objects scenario_cart_state) (menu_items scenario_cart_state)
              (cart scenario_cart_state) [] (py_float 0))
     = 3705969912116675 / 17592186044416"
  by code_simp

lemma scenario_summary: "display_cart_summary scenario_cart_state = Some ''210.66''"
  by code_simp

lemma scenario_order: "orders scenario_first_order =
     [\<lparr>order_id = 1, customer_name = ''Alice'', items = [(0, 2), (1, 1)],
       total_amount = 3705969912116675 / 17592186044416,
       date = ''03-11-2026 10:00'', is_teacher = False\<rparr>]"
  by code_simp

lemma scenario_ids: "map order_id (orders scenario_second_order) = [1, 2]"
  by code_simp

lemma scenario_metrics: "show_admin_panel scenario_second_order =
     Inr \<lparr>total_orders = 2, revenue = fl (28086 / 100), menu_count = 8,
          avg_order = fl (14043 / 100)\<rparr>"
  by code_simp

lemma scenario_revenue_text: "format_2f (fl (28086 / 100)) = ''280.86''"
  by code_simp

lemma scenario_subtotal_ulp: "3705969912116675 / 17592186044416 = fl (21066 / 100) + 1 / 2 ^ 45"
  by code_simp





text \<open>
  C7 (as the code computes it): on the default menu, with Burger (identifier 1, price 70.23)
  and Coffee (identifier 2, price 70.20), two clicks on plus for item 1 and one for item 2
  give the cart \<^verbatim>\<open>{1: 2, 2: 1}\<close>, which resolves to Burger twice and Coffee once. The
  total is the float 210.66000000000003, one unit in the last place above the float 210.66;
  the cart summary shows it as 210.66. Placing the order gives order 1 with these two lines
  and that total. After a second order of item 2 alone the ledger holds the orders 1 and 2,
  and the metrics are count 2, revenue the float 280.86 and average the float 140.43.
\<close>

theorem scenario_as_computed:
  "cart scenario_cart_state = [(1, 2), (2, 1)]
   \<and> map (\<lambda>(r, q). (name (objects scenario_cart_state ! r), price (objects scenario_cart_state ! r), q))
       (fst (cart_loop (objects scenario_cart_state) (menu_items scenario_cart_state)
              (cart scenario_cart_state) [] (py_float 0)))
     = [(''Burger'', fl (7023 / 100), 2), (''Coffee'', fl (7020 / 100), 1)]
   \<and> snd (cart_loop (objects scenario_cart_state) (menu_items scenario_cart_state)
              (cart scenario_cart_state) [] (py_float 0))
     = fl (21066 / 100) + 1 / 2 ^ 45
   \<and> display_cart_summary scenario_cart_state = Some ''210.66''
   \<and> orders scenario_first_order =
     [\<lparr>order_id = 1, customer_name = ''Alice'', items = [(0, 2), (1, 1)],
       total_amount = fl (21066 / 100) + 1 / 2 ^ 45,
       date = ''03-11-2026 10:00'', is_teacher = False\<rparr>]
   \<and> map order_id (orders scenario_second_order) = [1, 2]
   \<and> length (orders scenario_second_order) = 2
   \<and> show_admin_panel scenario_second_order =
     Inr \<lparr>total_orders = 2, revenue = fl (28086 / 100), menu_count = 8,
          avg_order = fl (14043 / 100)\<rparr>
   \<and> format_2f (fl (28086 / 100)) = ''280.86''"
proof -
  have "length (orders scenario_second_order) = 2"
    using scenario_ids by (metis length_map length_Cons list.size(3) numeral_2_eq_2)
  then show ?thesis
    using scenario_cart_entries scenario_snapshot scenario_subtotal scenario_summary
      scenario_order scenario_ids scenario_metrics scenario_revenue_text scenario_subtotal_ulp
    by simp
qed

text \<open>
  The claim as the spec states it has the subtotal and the order's total equal to 210.66
  exactly. The total of the cart is neither the float 210.66 nor the number 210.66.
\<close>

theorem scenario_subtotal_is_not_210_66:
  "snd (cart_loop (objects scenario_cart_state) (menu_items scenario_cart_state)
         (cart scenario_cart_state) [] (py_float 0)) \<noteq> fl (21066 / 100)
   \<and> snd (cart_loop (objects scenario_cart_state) (menu_items scenario_cart_state)
         (cart scenario_cart_state) [] (py_float 0)) \<noteq> 21066 / 100
   \<and> map total_amount (orders scenario_first_order) \<noteq> [fl (21066 / 100)]"
  by code_simp
section \<open>Orders and the catalog\<close>

lemma cart_loop_refs:
  assumes "fst ` set acc \<subseteq> set menu"
  shows "fst ` set (fst (cart_loop objs menu c acc tot)) \<subseteq> set menu"
  using assms
proof (induction c arbitrary: acc tot)
  case Nil
  then show ?case by simp
next
  case (Cons e c)
  obtain fid qty where e: "e = (fid, qty)" by (cases e)
  show ?case
  proof (cases "lookup_item objs menu fid")
    case None
    then show ?thesis using Cons by (simp add: e)
  next
    case (Some r)
    then have "r \<in> set menu"
      by (auto simp: lookup_item_def find_Some_iff)
    then have "fst ` set (acc @ [(r, qty)]) \<subseteq> set menu" using Cons.prems by auto
    from Cons.IH [OF this] show ?thesis by (simp add: e Some)
  qed
qed

lemma place_order_references:
  "objects (snd (place_order customer teacher now s)) = objects s
   \<and> menu_items (snd (place_order customer teacher now s)) = menu_items s
   \<and> (orders (snd (place_order customer teacher now s)) = orders s
      \<or> (\<exists>ord. orders (snd (place_order customer teacher now s)) = orders s @ [ord]
            \<and> fst ` set (items ord) \<subseteq> set (menu_items s)))"
proof (cases "cart_loop (objects s) (menu_items s) (cart s) [] (py_float 0)")
  case (Pair items_ordered tot)
  have "fst ` set (fst (cart_loop (objects s) (menu_items s) (cart s) [] (py_float 0)))
      \<subseteq> set (menu_items s)"
    by (rule cart_loop_refs) simp
  with Pair show ?thesis by (simp add: place_order_def Let_def)
qed

lemma step_objects_prefix: "prefix (objects s) (objects (snd (step a s)))"
proof (cases a)
  case (PlaceOrder customer teacher now)
  then show ?thesis
    using place_order_references [of customer teacher now s]
    by (simp add: place_order_button_def)
next
  case (AddDish nm pr cat rt img)
  then show ?thesis by (simp add: add_dish_def Let_def)
next
  case ShowRecommendations
  then show ?thesis by (simp add: cached_get_popular_items_def Let_def split: option.splits)
qed (simp_all add: display_menu_item_plus_def display_menu_item_minus_def
      clear_cart_button_def delete_dish_def delete_order_def Let_def)

lemma run_objects_prefix: "prefix (objects s) (objects (run acts s))"
proof (induction acts arbitrary: s)
  case Nil
  show ?case by simp
next
  case (Cons a acts)
  have "prefix (objects s) (objects (snd (step a s)))" by (rule step_objects_prefix)
  also have "prefix \<dots> (objects (run acts (snd (step a s))))" by (rule Cons.IH)
  finally show ?case by simp
qed

lemma prefix_lines:
  assumes "prefix objs objs'" "\<forall>line \<in> set (items ord). fst line < length objs"
  shows "order_lines objs' ord = order_lines objs ord \<and> items_str objs' ord = items_str objs ord"
proof -
  from assms(1) obtain zs where z: "objs' = objs @ zs" by (auto simp: prefix_def)
  have e: "\<forall>line \<in> set (items ord). objs' ! fst line = objs ! fst line"
    using assms(2) by (simp add: z nth_append)
  have m1: "map (\<lambda>(r, q). (name (objs' ! r), q)) (items ord)
           = map (\<lambda>(r, q). (name (objs ! r), q)) (items ord)"
    using e by (intro map_cong refl) auto
  have m2: "map (\<lambda>(r, q). name (objs' ! r) @ ''x'' @ str_int q) (items ord)
           = map (\<lambda>(r, q). name (objs ! r) @ ''x'' @ str_int q) (items ord)"
    using e by (intro map_cong refl) auto
  show ?thesis unfolding order_lines_def items_str_def m1 m2 by simp
qed

text \<open>
  C2 (as the code has it): \<^verbatim>\<open>place_order\<close> creates no object: the lines of the order it
  appends hold references to the catalog's own items, each with its quantity. Deleting a menu
  item takes its reference out of the catalog list and touches neither the object store nor
  the ledger, so for every order in the ledger the lines (names, quantities), their text in
  the reports and the total are after the deletion what they were before; the same holds
  along any sequence of deletions, and the lines read the same after any sequence of
  actions, because the object store only grows.
\<close>

theorem orders_keep_lines:
  assumes "order_refs_valid s"
  shows "objects (snd (place_order customer teacher now s)) = objects s
       \<and> (orders (snd (place_order customer teacher now s)) = orders s
          \<or> (\<exists>ord. orders (snd (place_order customer teacher now s)) = orders s @ [ord]
                \<and> fst ` set (items ord) \<subseteq> set (menu_items s)))
       \<and> objects (delete_dish r s) = objects s
       \<and> orders (delete_dish r s) = orders s
       \<and> (\<forall>ord \<in> set (orders s).
             order_lines (objects (delete_dish r s)) ord = order_lines (objects s) ord
             \<and> items_str (objects (delete_dish r s)) ord = items_str (objects s) ord)
       \<and> orders (run (map DeleteDish rs) s) = orders s
       \<and> (\<forall>ord \<in> set (orders s).
             order_lines (objects (run acts s)) ord = order_lines (objects s) ord
             \<and> items_str (objects (run acts s)) ord = items_str (objects s) ord)"
proof -
  have 1: "orders (run (map DeleteDish rs) s) = orders s"
    by (induction rs arbitrary: s) (simp_all add: delete_dish_def)
  have 2: "\<forall>ord \<in> set (orders s).
             order_lines (objects (run acts s)) ord = order_lines (objects s) ord
             \<and> items_str (objects (run acts s)) ord = items_str (objects s) ord"
    using assms run_objects_prefix [of s acts]
    by (auto simp: order_refs_valid_def intro!: prefix_lines)
  show ?thesis
    using place_order_references [of customer teacher now s] 1 2
    by (simp add: delete_dish_def)
qed

lemma scenario_order_refs: "order_refs_valid scenario_first_order"
  by code_simp

lemma scenario_after_delete:
  "orders (delete_dish 0 scenario_first_order) = orders scenario_first_order"
  "map name (map (\<lambda>r. objects (delete_dish 0 scenario_first_order) ! r)
     (menu_items (delete_dish 0 scenario_first_order)))
   = [''Coffee'', ''Pizza'', ''Pasta'', ''Sandwich'', ''Fries'', ''Salad'', ''Ice Cream'']"
  "map (order_lines (objects (delete_dish 0 scenario_first_order)))
     (orders (delete_dish 0 scenario_first_order)) = [[(''Burger'', 2), (''Coffee'', 1)]]"
  "map (items_str (objects (delete_dish 0 scenario_first_order)))
     (orders (delete_dish 0 scenario_first_order)) = [''Burgerx2; Coffeex1'']"
  "map total_amount (orders (delete_dish 0 scenario_first_order)) = [fl (21066 / 100) + 1 / 2 ^ 45]"
  by code_simp+

theorem orders_keep_lines_witness:
  "order_refs_valid scenario_first_order
   \<and> orders (delete_dish 0 scenario_first_order) = orders scenario_first_order
   \<and> map name (map (\<lambda>r. objects (delete_dish 0 scenario_first_order) ! r)
        (menu_items (delete_dish 0 scenario_first_order)))
      = [''Coffee'', ''Pizza'', ''Pasta'', ''Sandwich'', ''Fries'', ''Salad'', ''Ice Cream'']
   \<and> map (order_lines (objects (delete_dish 0 scenario_first_order)))
        (orders (delete_dish 0 scenario_first_order)) = [[(''Burger'', 2), (''Coffee'', 1)]]
   \<and> map (items_str (objects (delete_dish 0 scenario_first_order)))
        (orders (delete_dish 0 scenario_first_order)) = [''Burgerx2; Coffeex1'']
   \<and> map total_amount (orders (delete_dish 0 scenario_first_order))
      = [fl (21066 / 100) + 1 / 2 ^ 45]"
  using orders_keep_lines [OF scenario_order_refs, of "''Bob''" False "''03-11-2026 10:09''" 0 "[0]" "[DeleteDish 0]"]
    scenario_order_refs scenario_after_delete
  by simp

text \<open>
  The claim as the spec states it has the lines of an order be copies of the menu items. In
  the scenario the placement leaves the object store as it was, so no copy has been made,
  and the two lines of order 1 hold the references 0 and 1, which are the catalog's
  references to Burger and Coffee.
\<close>

theorem order_lines_reference_catalog_objects:
  "objects scenario_first_order = objects scenario_cart_state
   \<and> menu_items scenario_cart_state = [0, 1, 2, 3, 4, 5, 6, 7]
   \<and> map (\<lambda>ord. map fst (items ord)) (orders scenario_first_order) = [[0, 1]]"
  by code_simp

section \<open>Popular items\<close>

lemma map_of_dict_set': "map_of (dict_set d k v) = (map_of d)(k \<mapsto> v)"
  by (induction d k v rule: dict_set.induct) auto

lemma keys_dict_set: "fst ` set (dict_set d k v) = insert k (fst ` set d)"
  by (induction d k v rule: dict_set.induct) auto

lemma distinct_dict_set:
  "distinct (map fst d) \<Longrightarrow> distinct (map fst (dict_set d k v))"
  by (induction d k v rule: dict_set.induct) (auto simp: keys_dict_set)

lemma count_items_flat:
  "foldl (\<lambda>item_counts ord. foldl (count_item objs) item_counts (items ord)) d ords
   = foldl (count_item objs) d (concat (map items ords))"
  by (induction ords arbitrary: d) simp_all

lemma count_fold_get:
  "dict_get (foldl (count_item objs) d ls) fid 0
   = dict_get d fid 0 + sum_list (map snd (filter (\<lambda>line. food_id (objs ! fst line) = fid) ls))"
  by (induction ls arbitrary: d)
     (simp_all add: count_item_def Let_def dict_get_def map_of_dict_set')

lemma count_fold_keys:
  "fst ` set (foldl (count_item objs) d ls)
   = fst ` set d \<union> (\<lambda>line. food_id (objs ! fst line)) ` set ls"
  by (induction ls arbitrary: d) (auto simp: count_item_def Let_def keys_dict_set)

lemma count_fold_distinct:
  "distinct (map fst d) \<Longrightarrow> distinct (map fst (foldl (count_item objs) d ls))"
  by (induction ls arbitrary: d) (simp_all add: count_item_def Let_def distinct_dict_set)

lemma count_items_distinct: "distinct (map fst (count_items objs ords))"
  by (simp add: count_items_def count_items_flat count_fold_distinct)

lemma count_items_keys:
  "fst ` set (count_items objs ords)
   = (\<lambda>line. food_id (objs ! fst line)) ` set (order_lines_all ords)"
  by (simp add: count_items_def count_items_flat count_fold_keys order_lines_all_def)

lemma dict_get_empty: "dict_get [] k dflt = dflt"
  by (simp add: dict_get_def)

lemma count_items_get: "dict_get (count_items objs ords) fid 0 = cumulative_qty objs ords fid"
  by (simp add: count_items_def count_items_flat count_fold_get cumulative_qty_def
      order_lines_all_def dict_get_empty)

lemma count_items_entry:
  assumes "e \<in> set (count_items objs ords)"
  shows "snd e = cumulative_qty objs ords (fst e)"
proof -
  have "map_of (count_items objs ords) (fst e) = Some (snd e)"
    using assms count_items_distinct [of objs ords] by simp
  then have "dict_get (count_items objs ords) (fst e) 0 = snd e"
    by (simp add: dict_get_def)
  then show ?thesis by (simp add: count_items_get)
qed

lemma slice_to_take: "\<exists>m. slice_to xs k = take m xs"
  by (auto simp: slice_to_def)

lemma slice_to_length: "0 \<le> k \<Longrightarrow> length (slice_to xs k) \<le> nat k"
  by (simp add: slice_to_def)

lemma slice_to_subseq: "subseq (slice_to xs k) xs"
proof -
  obtain m where "slice_to xs k = take m xs" using slice_to_take by blast
  then show ?thesis by (simp add: take_is_prefix prefix_imp_subseq)
qed

lemma popular_subseq: "subseq (get_popular_items objs menu ords limit) menu"
  by (simp add: get_popular_items_def Let_def slice_to_subseq)

lemma filter_ids_length:
  assumes "distinct (map f xs)"
  shows "length (filter (\<lambda>x. f x \<in> set ks) xs) \<le> length ks"
proof -
  let ?ys = "filter (\<lambda>x. f x \<in> set ks) xs"
  have "distinct (map f ?ys)" using assms by (rule distinct_map_filter)
  then have "length ?ys = card (set (map f ?ys))"
    by (metis distinct_card length_map)
  also have "\<dots> \<le> card (set ks)"
    by (intro card_mono) auto
  also have "\<dots> \<le> length ks" by (rule card_length)
  finally show ?thesis .
qed

lemma popular_length:
  assumes "0 \<le> limit" "distinct (food_ids objs menu)"
  shows "length (get_popular_items objs menu ords limit) \<le> nat limit"
proof (cases "count_items objs ords = []")
  case True
  then show ?thesis using assms by (simp add: get_popular_items_def slice_to_length)
next
  case False
  let ?ks = "map fst (slice_to (sorted_reverse snd (count_items objs ords)) limit)"
  have "length (filter (\<lambda>r. food_id (objs ! r) \<in> set ?ks) menu) \<le> length ?ks"
    using assms(2) by (intro filter_ids_length) (simp add: food_ids_def)
  also have "\<dots> \<le> nat limit" using assms(1) by (simp add: slice_to_length)
  finally show ?thesis using False by (simp add: get_popular_items_def Let_def)
qed

lemma popular_ids_top:
  assumes "fid \<in> set (popular_ids objs ords limit)"
    and "e \<in> set (count_items objs ords)" "fst e \<notin> set (popular_ids objs ords limit)"
  shows "snd e \<le> cumulative_qty objs ords fid"
proof -
  let ?L = "sorted_reverse snd (count_items objs ords)"
  obtain m where m: "slice_to ?L limit = take m ?L" using slice_to_take by blast
  have set_L: "set ?L = set (count_items objs ords)" by (simp add: sorted_reverse_def)
  from assms(1) obtain x where x: "x \<in> set (take m ?L)" "fst x = fid"
    by (auto simp: popular_ids_def m)
  then have "x \<in> set (count_items objs ords)"
    using set_L set_take_subset [of m ?L] by blast
  then have cx: "snd x = cumulative_qty objs ords fid"
    using count_items_entry x(2) by blast
  have "e \<in> set (take m ?L) \<union> set (drop m ?L)"
    using assms(2) set_L by (metis append_take_drop_id set_append)
  moreover have "e \<notin> set (take m ?L)"
    using assms(3) by (auto simp: popular_ids_def m)
  ultimately have e: "e \<in> set (drop m ?L)" by simp
  have "sorted (map (\<lambda>x. - snd x) (take m ?L @ drop m ?L))"
    by (simp add: sorted_reverse_def)
  then have "- snd x \<le> - snd e"
    using x(1) e unfolding map_append sorted_append by auto
  then show ?thesis by (simp add: cx)
qed

lemma popular_ids_ranked: "sorted (rev (map snd (sorted_reverse snd d)))"
proof -
  have "sorted (map (\<lambda>x. - snd x) (sorted_reverse snd d))"
    by (simp add: sorted_reverse_def)
  then have "sorted_wrt (\<lambda>a b. snd b \<le> snd a) (sorted_reverse snd d)"
    by (simp add: sorted_wrt_map)
  then have "sorted_wrt (\<lambda>a b. b \<le> a) (map snd (sorted_reverse snd d))"
    by (simp add: sorted_wrt_map)
  then show ?thesis by (simp add: sorted_wrt_rev)
qed

lemma keys_dict_set_order:
  "map fst (dict_set d k v) = (if k \<in> set (map fst d) then map fst d else map fst d @ [k])"
  by (induction d k v rule: dict_set.induct) auto

lemma remdups_later_occurrence:
  "k \<in> set ys \<Longrightarrow> remdups (xs @ k # ys) = remdups (xs @ ys)"
  by (induction xs) auto

lemma first_occurrences_seen:
  assumes "k \<in> set xs"
  shows "first_occurrences (xs @ k # ys) = first_occurrences (xs @ ys)"
  using assms by (simp add: first_occurrences_def remdups_later_occurrence)

lemma first_occurrences_distinct: "distinct xs \<Longrightarrow> first_occurrences xs = xs"
  by (simp add: first_occurrences_def distinct_remdups_id)

lemma count_fold_order:
  assumes "distinct (map fst d)"
  shows "map fst (foldl (count_item objs) d ls)
       = first_occurrences (map fst d @ map (\<lambda>line. food_id (objs ! fst line)) ls)"
  using assms
proof (induction ls arbitrary: d)
  case Nil
  then show ?case by (simp add: first_occurrences_distinct)
next
  case (Cons l ls)
  let ?k = "food_id (objs ! fst l)"
  let ?d = "count_item objs d l"
  have k: "map fst ?d = (if ?k \<in> set (map fst d) then map fst d else map fst d @ [?k])"
    by (simp add: count_item_def Let_def keys_dict_set_order)
  have "distinct (map fst ?d)"
    using Cons.prems by (simp add: count_item_def Let_def distinct_dict_set)
  then have IH: "map fst (foldl (count_item objs) ?d ls)
      = first_occurrences (map fst ?d @ map (\<lambda>line. food_id (objs ! fst line)) ls)"
    by (rule Cons.IH)
  show ?case
  proof (cases "?k \<in> set (map fst d)")
    case True
    then show ?thesis
      using IH k first_occurrences_seen [of ?k "map fst d"] by simp
  next
    case False
    then show ?thesis using IH k by simp
  qed
qed

lemma count_items_order:
  "map fst (count_items objs ords)
   = first_occurrences (map (\<lambda>line. food_id (objs ! fst line)) (order_lines_all ords))"
  using count_fold_order [of "[]" objs "concat (map items ords)"]
  by (simp add: count_items_def count_items_flat order_lines_all_def)

lemma sorted_reverse_stable:
  "filter (\<lambda>e. key e = q) (sorted_reverse key xs) = filter (\<lambda>e. key e = q) xs"
proof -
  have "filter (\<lambda>e. - key e = - q) (sort_key (\<lambda>x. - key x) xs) = filter (\<lambda>e. - key e = - q) xs"
    by (rule sort_key_stable)
  then show ?thesis by (simp add: sorted_reverse_def)
qed

lemma popular_ids_take:
  assumes "0 \<le> limit"
  shows "popular_ids objs ords limit
           = map fst (take (nat limit) (sorted_reverse snd (count_items objs ords)))"
    and "length (popular_ids objs ords limit) = min (nat limit) (length (count_items objs ords))"
  using assms by (simp_all add: popular_ids_def slice_to_def sorted_reverse_def)

lemma cached_miss:
  assumes "map_of (popular_cache s) limit = None"
  shows "cached_get_popular_items limit s =
    (map (\<lambda>r. objects s ! r) (get_popular_items (objects s) (menu_items s) (orders s) limit),
     s\<lparr>popular_cache := popular_cache s @
        [(limit, map (\<lambda>r. objects s ! r)
                   (get_popular_items (objects s) (menu_items s) (orders s) limit))]\<rparr>)"
  using assms by (simp add: cached_get_popular_items_def Let_def)

lemma cached_hit:
  assumes "map_of (popular_cache s) limit = Some v"
  shows "cached_get_popular_items limit s = (v, s)"
  using assms by (simp add: cached_get_popular_items_def)

lemma cache_kept:
  "popular_cache (delete_dish r s) = popular_cache s"
  "popular_cache (delete_order ord s) = popular_cache s"
  "popular_cache (snd (add_dish nm pr cat rt img s)) = popular_cache s"
  by (simp_all add: delete_dish_def delete_order_def add_dish_def Let_def)

lemma cache_cleared:
  assumes "fst (place_order customer teacher now s) \<noteq> []"
  shows "popular_cache (snd (place_order customer teacher now s)) = []"
  using assms
  by (cases "cart_loop (objects s) (menu_items s) (cart s) [] (py_float 0)")
     (simp add: place_order_def Let_def split: if_splits)

text \<open>
  C1 (as the code has it): for every catalog and every ledger, the body of
  \<^verbatim>\<open>get_popular_items\<close> tallies for each identifier the cumulative quantity over all lines of
  all orders, the identifiers in the order in which the lines first name them. When there is
  a line, it sorts the tally by descending quantity, entries of equal quantity staying in
  that order, selects the identifiers of the first \<open>limit\<close> entries (all of them when there
  are fewer; each selected identifier has a quantity at least that of every identifier left
  out) and returns the catalog items that bear a selected identifier, in catalog order, not
  in the order of their quantities; these are at most \<open>limit\<close> items when the catalog's
  identifiers are pairwise different and \<open>limit\<close> is not negative. When the ledger is empty
  it returns the first \<open>limit\<close> catalog items in catalog order. The application calls the
  function through its cache, which is keyed by \<open>limit\<close> alone: a call whose \<open>limit\<close> has an
  entry returns the entry and does not run the body, whatever the catalog and the ledger are
  now; a call without an entry runs the body and stores its result; a successful
  \<^verbatim>\<open>place_order\<close> empties the cache, the deletion of a dish or an order and the addition of
  a dish do not.
\<close>

theorem popular_items_tally_and_selection:
  "(\<forall>e \<in> set (count_items objs ords). snd e = cumulative_qty objs ords (fst e))
   \<and> fst ` set (count_items objs ords)
       = (\<lambda>line. food_id (objs ! fst line)) ` set (order_lines_all ords)
   \<and> distinct (map fst (count_items objs ords))
   \<and> subseq (get_popular_items objs menu ords limit) menu
   \<and> (count_items objs ords \<noteq> [] \<longrightarrow>
        get_popular_items objs menu ords limit
          = filter (\<lambda>r. food_id (objs ! r) \<in> set (popular_ids objs ords limit)) menu)
   \<and> (0 \<le> limit \<longrightarrow> length (popular_ids objs ords limit) \<le> nat limit)
   \<and> (\<forall>fid \<in> set (popular_ids objs ords limit). \<forall>e \<in> set (count_items objs ords).
        fst e \<notin> set (popular_ids objs ords limit) \<longrightarrow> snd e \<le> cumulative_qty objs ords fid)
   \<and> (0 \<le> limit \<and> distinct (food_ids objs menu) \<longrightarrow>
        length (get_popular_items objs menu ords limit) \<le> nat limit)
   \<and> get_popular_items objs menu [] limit = slice_to menu limit
   \<and> (0 \<le> limit \<longrightarrow> get_popular_items objs menu [] limit = take (nat limit) menu)
   \<and> map fst (count_items objs ords)
       = first_occurrences (map (\<lambda>line. food_id (objs ! fst line)) (order_lines_all ords))
   \<and> set (sorted_reverse snd (count_items objs ords)) = set (count_items objs ords)
   \<and> length (sorted_reverse snd (count_items objs ords)) = length (count_items objs ords)
   \<and> sorted (rev (map snd (sorted_reverse snd (count_items objs ords))))
   \<and> (\<forall>q. filter (\<lambda>e. snd e = q) (sorted_reverse snd (count_items objs ords))
            = filter (\<lambda>e. snd e = q) (count_items objs ords))
   \<and> (0 \<le> limit \<longrightarrow>
        popular_ids objs ords limit
          = map fst (take (nat limit) (sorted_reverse snd (count_items objs ords)))
        \<and> length (popular_ids objs ords limit)
          = min (nat limit) (length (count_items objs ords)))
   \<and> (map_of (popular_cache s) limit = None \<longrightarrow>
        cached_get_popular_items limit s =
          (map (\<lambda>r. objects s ! r) (get_popular_items (objects s) (menu_items s) (orders s) limit),
           s\<lparr>popular_cache := popular_cache s @
              [(limit, map (\<lambda>r. objects s ! r)
                 (get_popular_items (objects s) (menu_items s) (orders s) limit))]\<rparr>))
   \<and> (\<forall>v. map_of (popular_cache s) limit = Some v \<longrightarrow> cached_get_popular_items limit s = (v, s))
   \<and> (fst (place_order customer teacher now s) \<noteq> [] \<longrightarrow>
        popular_cache (snd (place_order customer teacher now s)) = [])
   \<and> popular_cache (delete_dish r s) = popular_cache s
   \<and> popular_cache (delete_order ord s) = popular_cache s
   \<and> popular_cache (snd (add_dish nm pr cat rt img s)) = popular_cache s"
proof -
  have 1: "\<forall>e \<in> set (count_items objs ords). snd e = cumulative_qty objs ords (fst e)"
    using count_items_entry by blast
  have 2: "count_items objs ords \<noteq> [] \<longrightarrow>
        get_popular_items objs menu ords limit
          = filter (\<lambda>r. food_id (objs ! r) \<in> set (popular_ids objs ords limit)) menu"
    by (simp add: get_popular_items_def popular_ids_def Let_def)
  have 3: "0 \<le> limit \<longrightarrow> length (popular_ids objs ords limit) \<le> nat limit"
    by (simp add: popular_ids_def slice_to_length)
  have 4: "\<forall>fid \<in> set (popular_ids objs ords limit). \<forall>e \<in> set (count_items objs ords).
        fst e \<notin> set (popular_ids objs ords limit) \<longrightarrow> snd e \<le> cumulative_qty objs ords fid"
    using popular_ids_top by blast
  have 5: "0 \<le> limit \<and> distinct (food_ids objs menu) \<longrightarrow>
        length (get_popular_items objs menu ords limit) \<le> nat limit"
    using popular_length by blast
  have 6: "get_popular_items objs menu [] limit = slice_to menu limit"
    by (simp add: get_popular_items_def count_items_def)
  have 7: "0 \<le> limit \<longrightarrow> get_popular_items objs menu [] limit = take (nat limit) menu"
    by (simp add: 6 slice_to_def)
  have 8: "set (sorted_reverse snd (count_items objs ords)) = set (count_items objs ords)"
    "length (sorted_reverse snd (count_items objs ords)) = length (count_items objs ords)"
    by (simp_all add: sorted_reverse_def)
  have 9: "\<forall>q. filter (\<lambda>e. snd e = q) (sorted_reverse snd (count_items objs ords))
            = filter (\<lambda>e. snd e = q) (count_items objs ords)"
    by (simp add: sorted_reverse_stable)
  have 10: "0 \<le> limit \<longrightarrow>
        popular_ids objs ords limit
          = map fst (take (nat limit) (sorted_reverse snd (count_items objs ords)))
        \<and> length (popular_ids objs ords limit)
          = min (nat limit) (length (count_items objs ords))"
    using popular_ids_take [of limit objs ords] by blast
  have 11: "map_of (popular_cache s) limit = None \<longrightarrow>
        cached_get_popular_items limit s =
          (map (\<lambda>r. objects s ! r) (get_popular_items (objects s) (menu_items s) (orders s) limit),
           s\<lparr>popular_cache := popular_cache s @
              [(limit, map (\<lambda>r. objects s ! r)
                 (get_popular_items (objects s) (menu_items s) (orders s) limit))]\<rparr>)"
    using cached_miss by blast
  have 12: "\<forall>v. map_of (popular_cache s) limit = Some v \<longrightarrow> cached_get_popular_items limit s = (v, s)"
    using cached_hit by blast
  have 13: "fst (place_order customer teacher now s) \<noteq> [] \<longrightarrow>
        popular_cache (snd (place_order customer teacher now s)) = []"
    using cache_cleared by blast
  show ?thesis
    by (intro conjI) (fact 1 count_items_keys count_items_distinct popular_subseq 2 3 4 5 6 7
        count_items_order 8 popular_ids_ranked 9 10 11 12 13 cache_kept)+
qed

lemma popular_scenario_values:
  "map items (orders popular_scenario) = [[(1, 3), (0, 1)]]"
  "count_items (objects popular_scenario) (orders popular_scenario) = [(2, 3), (1, 1)]"
  "get_popular_items (objects popular_scenario) (menu_items popular_scenario)
     (orders popular_scenario) 3 = [0, 1]"
  "map (\<lambda>r. name (objects popular_scenario ! r)) [0, 1] = [''Burger'', ''Coffee'']"
  "map (\<lambda>r. cumulative_qty (objects popular_scenario) (orders popular_scenario)
               (food_id (objects popular_scenario ! r))) [0, 1] = [1, 3]"
  "popular_ids (objects popular_scenario) (orders popular_scenario) 3 = [2, 1]"
  "get_popular_items (objects popular_scenario) (menu_items popular_scenario)
     (orders popular_scenario) 1 = [1]"
  "get_popular_items (objects popular_scenario) (menu_items popular_scenario) [] 3 = [0, 1, 2]"
  by code_simp+

lemma tie_scenario_values:
  "count_items (objects tie_scenario) (orders tie_scenario) = [(3, 1), (1, 1), (2, 2)]"
  "sorted_reverse snd (count_items (objects tie_scenario) (orders tie_scenario))
     = [(2, 2), (3, 1), (1, 1)]"
  "popular_ids (objects tie_scenario) (orders tie_scenario) 2 = [2, 3]"
  "get_popular_items (objects tie_scenario) (menu_items tie_scenario) (orders tie_scenario) 2
     = [1, 2]"
  "map (\<lambda>r. name (objects tie_scenario ! r)) [1, 2] = [''Coffee'', ''Pizza'']"
  by code_simp+

lemma stale_cache_values:
  "map fst (popular_cache stale_cache_scenario) = [3]"
  "map name (fst (cached_get_popular_items 3 stale_cache_scenario)) = [''Burger'', ''Coffee'']"
  "snd (cached_get_popular_items 3 stale_cache_scenario) = stale_cache_scenario"
  "map (\<lambda>r. name (objects stale_cache_scenario ! r))
     (get_popular_items (objects stale_cache_scenario) (menu_items stale_cache_scenario)
        (orders stale_cache_scenario) 3) = [''Coffee'']"
  "map (\<lambda>r. name (objects stale_cache_scenario ! r)) (menu_items stale_cache_scenario)
     = [''Coffee'', ''Pizza'', ''Pasta'', ''Sandwich'', ''Fries'', ''Salad'', ''Ice Cream'']"
  by code_simp+

lemma stale_cache_entry: "map_of (popular_cache stale_cache_scenario) 3 \<noteq> None"
  by code_simp

theorem popular_items_tally_and_selection_witness:
  "count_items (objects popular_scenario) (orders popular_scenario) = [(2, 3), (1, 1)]
   \<and> popular_ids (objects popular_scenario) (orders popular_scenario) 3 = [2, 1]
   \<and> get_popular_items (objects popular_scenario) (menu_items popular_scenario)
       (orders popular_scenario) 3 = [0, 1]
   \<and> get_popular_items (objects popular_scenario) (menu_items popular_scenario)
       (orders popular_scenario) 1 = [1]
   \<and> get_popular_items (objects popular_scenario) (menu_items popular_scenario) [] 3 = [0, 1, 2]
   \<and> count_items (objects tie_scenario) (orders tie_scenario) = [(3, 1), (1, 1), (2, 2)]
   \<and> sorted_reverse snd (count_items (objects tie_scenario) (orders tie_scenario))
       = [(2, 2), (3, 1), (1, 1)]
   \<and> popular_ids (objects tie_scenario) (orders tie_scenario) 2 = [2, 3]
   \<and> get_popular_items (objects tie_scenario) (menu_items tie_scenario) (orders tie_scenario) 2
       = [1, 2]
   \<and> map fst (popular_cache stale_cache_scenario) = [3]
   \<and> map name (fst (cached_get_popular_items 3 stale_cache_scenario)) = [''Burger'', ''Coffee'']
   \<and> snd (cached_get_popular_items 3 stale_cache_scenario) = stale_cache_scenario
   \<and> map (\<lambda>r. name (objects stale_cache_scenario ! r))
       (get_popular_items (objects stale_cache_scenario) (menu_items stale_cache_scenario)
          (orders stale_cache_scenario) 3) = [''Coffee'']"
proof -
  note p = popular_items_tally_and_selection [of "objects popular_scenario"
      "orders popular_scenario" "menu_items popular_scenario" 3 stale_cache_scenario
      "''Alice''" False "''03-11-2026 10:00''" 0 twin_order "''Tea''" 1 "''Drinks''" 4 None]
  note t = popular_items_tally_and_selection [of "objects tie_scenario" "orders tie_scenario"
      "menu_items tie_scenario" 2 stale_cache_scenario
      "''Alice''" False "''03-11-2026 10:00''" 0 twin_order "''Tea''" 1 "''Drinks''" 4 None]
  have sub: "subseq (get_popular_items (objects popular_scenario) (menu_items popular_scenario)
      (orders popular_scenario) 3) (menu_items popular_scenario)"
    using p by - (elim conjE)
  have ids: "0 \<le> (2::int) \<longrightarrow>
      popular_ids (objects tie_scenario) (orders tie_scenario) 2
        = map fst (take (nat 2)
            (sorted_reverse snd (count_items (objects tie_scenario) (orders tie_scenario))))
      \<and> length (popular_ids (objects tie_scenario) (orders tie_scenario) 2)
        = min (nat 2) (length (count_items (objects tie_scenario) (orders tie_scenario)))"
    using t by - (elim conjE)
  have hit: "\<forall>v. map_of (popular_cache stale_cache_scenario) 3 = Some v \<longrightarrow>
      cached_get_popular_items 3 stale_cache_scenario = (v, stale_cache_scenario)"
    using p by - (elim conjE)
  have tie: "popular_ids (objects tie_scenario) (orders tie_scenario) 2 = [2, 3]"
    using ids by (simp add: tie_scenario_values)
  obtain v where "map_of (popular_cache stale_cache_scenario) 3 = Some v"
    using stale_cache_entry by blast
  with hit have stale: "snd (cached_get_popular_items 3 stale_cache_scenario)
      = stale_cache_scenario"
    by simp
  from sub tie stale popular_scenario_values tie_scenario_values stale_cache_values
  show ?thesis
    by - (intro conjI)
qed

text \<open>
  The claim as the spec states it has the items returned in descending order of quantity, and
  at most \<open>limit\<close> of them for every catalog. After one order of three Coffee and one
  Burger the function returns Burger (quantity 1) before Coffee (quantity 3). For a catalog
  whose two items bear the same identifier, it returns both with \<open>limit\<close> 1.
\<close>

theorem popular_items_in_catalog_order:
  "get_popular_items (objects popular_scenario) (menu_items popular_scenario)
     (orders popular_scenario) 3 = [0, 1]
   \<and> map (\<lambda>r. cumulative_qty (objects popular_scenario) (orders popular_scenario)
               (food_id (objects popular_scenario ! r)))
       (get_popular_items (objects popular_scenario) (menu_items popular_scenario)
          (orders popular_scenario) 3) = [1, 3]
   \<and> \<not> sorted (rev (map (\<lambda>r. cumulative_qty (objects popular_scenario) (orders popular_scenario)
               (food_id (objects popular_scenario ! r)))
       (get_popular_items (objects popular_scenario) (menu_items popular_scenario)
          (orders popular_scenario) 3)))
   \<and> length (get_popular_items twin_objects [0, 1] [twin_order] 1) = 2"
  by code_simp

end
